theory Spec2Isabelle
  imports Main "HOL-Library.AList" "HOL-Library.Monad_Syntax"
begin

section \<open>Data model of the row controller\<close>

text \<open>
  The controller of one grid row (class \<open>RowController\<close>) is embedded as a record that
  is passed through every operation and returned updated. Objects that the source
  compares by reference (columns, DOM elements, cell components) are identified by a
  natural number; the mutable attributes of a column (its id and its pinned side)
  are read through the column model, so two references to one column always agree.
  A JavaScript \<open>TypeError\<close> (reading a property of an undefined row component) is the
  value \<open>None\<close> of an operation.
\<close>

datatype RowType = Normal | FullWidth | FullWidthLoading | FullWidthGroup | FullWidthDetail

type_synonym element = nat

type_synonym column = nat

datatype pinned = PINNED_LEFT | PINNED_RIGHT

datatype rowPinnedType = PINNED_TOP | PINNED_BOTTOM

record rowNode =
  stub :: bool
  isFullWidthCell :: bool
  detail :: bool
  group :: bool
  footer :: bool
  rowIndex :: int
  rowPinned :: "rowPinnedType option"
  rowTop :: "int option"

record cellPosition =
  posRowIndex :: int
  posRowPinned :: "rowPinnedType option"
  posColumn :: column

text \<open>
  The part of \<open>this.beans\<close> that the modelled methods read: grid options, the column
  model and the focus controller. They are collaborators outside the controller and
  enter as parameters.
\<close>

record beans =
  doingMasterDetail :: bool
  isPivotMode :: bool
  isGroupUseEntireRow :: "bool \<Rightarrow> bool"
  isSuppressAnimationFrame :: bool
  isEnsureDomOrder :: bool
  isSuppressRowTransform :: bool
  getAllDisplayedColumns :: "column list"
  getViewportCenterColumnsForRow :: "column list"
  getDisplayedLeftColumnsForRow :: "column list"
  getDisplayedRightColumnsForRow :: "column list"
  getId :: "column \<Rightarrow> string"
  getPinned :: "column \<Rightarrow> pinned option"
  isCellEditable :: "column \<Rightarrow> bool"
  isCellFocused :: "cellPosition \<Rightarrow> bool"
  getPixelOffset :: int
  getRealPixelPosition :: "int \<Rightarrow> int"

text \<open>
  A cell component. \<open>eGui\<close> is the cell's own element and serves as the identity of the
  component; \<open>parentRow\<close> is the row element it was created in.
\<close>

record cellComp =
  eGui :: element
  cellColumn :: column
  parentRow :: element
  editingCell :: bool
  cellPos :: cellPosition

record fullWidthParams =
  eGridCell :: element
  paramsPinned :: "pinned option"
  paramsRowIndex :: int

text \<open>
  A full-width cell renderer: \<open>refresh\<close> is \<open>None\<close> when the component has no refresh
  method, otherwise the method's answer for given parameters.
\<close>

record cellRenderer =
  rendererGui :: element
  refresh :: "(fullWidthParams \<Rightarrow> bool) option"

record rowComp =
  getGui :: element
  getFullWidthRowComp :: "cellRenderer option"

text \<open>
  The functions kept in the callback queues: a callback handed in by a caller (opaque,
  identified by a number), the bound \<open>destroyContainingCells\<close>, and the two closures
  the constructor queues for the entry animation.
\<close>

datatype func = CallerFunc nat | DestroyContainingCells | SlideRowInFunc | FadeRowInFunc

datatype eventType =
    EVENT_ROW_VALUE_CHANGED
  | EVENT_ROW_EDITING_STARTED
  | EVENT_ROW_EDITING_STOPPED
  | EVENT_VIRTUAL_ROW_REMOVED

datatype task = RefreshCellsInAnimationFrame

text \<open>
  Everything the controller does to its collaborators is recorded, in order, in the
  \<open>trace\<close> of the state.
\<close>

datatype effect =
    NewCellComp element column element bool
  | CellDetach element
  | CellDestroy element
  | SetDomChildOrder element "element option list"
  | CellStopEditing element bool
  | CellStartEditingIfEnabled element "nat option" "string option" bool
  | DispatchEvent eventType
  | DispatchLocalEvent eventType
  | CreateTask task int string
  | CallFunc nat
  | AddOrRemoveCssClass element string bool
  | RemoveCssClass element string
  | SetStyleTop element int
  | SetStyleTransform element int
  | DestroyFullWidthComponent element
  | SuperDestroy

record rowController =
  rowNode :: rowNode
  rowType :: RowType
  allRowComps :: "rowComp list"
  leftRowComp :: "rowComp option"
  rightRowComp :: "rowComp option"
  centerRowComp :: "rowComp option"
  fullWidthRowComp :: "rowComp option"
  fullWidthRowDestroyFuncs :: "func list"
  active :: bool
  editingRow :: bool
  rowContainerReadyCount :: nat
  refreshNeeded :: bool
  columnRefreshPending :: bool
  cellComps :: "(string \<times> cellComp option) list"
  createSecondPassFuncs :: "func list"
  removeFirstPassFuncs :: "func list"
  removeSecondPassFuncs :: "func list"
  fadeRowIn :: bool
  slideRowIn :: bool
  elementOrderChanged :: bool
  printLayout :: bool
  nextElement :: element
  trace :: "effect list"

section \<open>Row-type classification\<close>

text \<open>
  \<open>setRowType\<close>: the row type is computed once, in the constructor, from the row node
  and the grid configuration.
\<close>

definition setRowType :: "beans \<Rightarrow> rowController \<Rightarrow> rowController" where
  "setRowType b s =
     (let isStub = stub (rowNode s);
          isFullWidthCell' = isFullWidthCell (rowNode s);
          isDetailCell = (doingMasterDetail b \<and> detail (rowNode s));
          pivotMode = isPivotMode b;
          isGroupRow = (group (rowNode s) \<and> \<not> footer (rowNode s));
          isFullWidthGroup = (isGroupRow \<and> isGroupUseEntireRow b pivotMode)
      in if isStub then s\<lparr>rowType := FullWidthLoading\<rparr>
         else if isDetailCell then s\<lparr>rowType := FullWidthDetail\<rparr>
         else if isFullWidthCell' then s\<lparr>rowType := FullWidth\<rparr>
         else if isFullWidthGroup then s\<lparr>rowType := FullWidthGroup\<rparr>
         else s\<lparr>rowType := Normal\<rparr>)"

definition isFullWidth :: "rowController \<Rightarrow> bool" where
  "isFullWidth s = (rowType s \<noteq> Normal)"

section \<open>Second-pass callback queues\<close>

definition addRemoveFirstPassFunc :: "func \<Rightarrow> rowController \<Rightarrow> rowController" where
  "addRemoveFirstPassFunc f s = s\<lparr>removeFirstPassFuncs := removeFirstPassFuncs s @ [f]\<rparr>"

definition addRemoveSecondPassFunc :: "func \<Rightarrow> rowController \<Rightarrow> rowController" where
  "addRemoveSecondPassFunc f s = s\<lparr>removeSecondPassFuncs := removeSecondPassFuncs s @ [f]\<rparr>"

text \<open>
  The end of the constructor: the only place that adds to \<open>createSecondPassFuncs\<close>.
\<close>

definition constructorSecondPass :: "rowController \<Rightarrow> rowController" where
  "constructorSecondPass s =
     (let s1 = (if slideRowIn s
                then s\<lparr>createSecondPassFuncs := createSecondPassFuncs s @ [SlideRowInFunc]\<rparr>
                else s)
      in if fadeRowIn s1
         then s1\<lparr>createSecondPassFuncs := createSecondPassFuncs s1 @ [FadeRowInFunc]\<rparr>
         else s1)"

definition getAndClearNextVMTurnFunctions :: "rowController \<Rightarrow> func list \<times> rowController" where
  "getAndClearNextVMTurnFunctions s =
     (let result = createSecondPassFuncs s
      in (result, s\<lparr>createSecondPassFuncs := []\<rparr>))"

definition getAndClearDelayedDestroyFunctions :: "rowController \<Rightarrow> func list \<times> rowController" where
  "getAndClearDelayedDestroyFunctions s =
     (let result = removeSecondPassFuncs s
      in (result, s\<lparr>removeSecondPassFuncs := []\<rparr>))"

section \<open>Refreshing the full-width representations\<close>

definition createFullWidthParams :: "rowController \<Rightarrow> element \<Rightarrow> pinned option \<Rightarrow> fullWidthParams" where
  "createFullWidthParams s eRow pin =
     \<lparr>eGridCell = eRow, paramsPinned = pin, paramsRowIndex = rowIndex (rowNode s)\<rparr>"

definition tryRefresh :: "rowController \<Rightarrow> rowComp option \<Rightarrow> pinned option \<Rightarrow> bool" where
  "tryRefresh s rowComp' pin =
     (case rowComp' of
        None \<Rightarrow> True
      | Some rc \<Rightarrow>
          (case getFullWidthRowComp rc of
             None \<Rightarrow> True
           | Some cellComp' \<Rightarrow>
               (case refresh cellComp' of
                  None \<Rightarrow> False
                | Some r \<Rightarrow> r (createFullWidthParams s (getGui rc) pin))))"

definition refreshFullWidth :: "rowController \<Rightarrow> bool" where
  "refreshFullWidth s =
     (let normalSuccess = tryRefresh s (fullWidthRowComp s) None;
          bodySuccess = tryRefresh s (centerRowComp s) None;
          leftSuccess = tryRefresh s (leftRowComp s) (Some PINNED_LEFT);
          rightSuccess = tryRefresh s (rightRowComp s) (Some PINNED_RIGHT);
          allFullWidthRowsRefreshed = (normalSuccess \<and> bodySuccess \<and> leftSuccess \<and> rightSuccess)
      in allFullWidthRowsRefreshed)"

section \<open>The registry of cell slots\<close>

text \<open>
  \<open>cellComps\<close> is a JavaScript object from column ids to cell components or
  \<open>null\<close>. It is an association list in the order the keys were first assigned;
  \<open>AList.update\<close> is the assignment \<open>cellComps[key] = v\<close>. \<open>Object.keys\<close> lists the
  keys that are array indices (canonical decimal numerals below \<open>2^32 - 1\<close>) first,
  in ascending numeric order, and the other keys after them in insertion order.
\<close>

definition isDigit :: "char \<Rightarrow> bool" where
  "isDigit c = (48 \<le> (of_char c :: int) \<and> (of_char c :: int) \<le> 57)"

definition digitsValue :: "string \<Rightarrow> int" where
  "digitsValue ds = foldl (\<lambda>n c. 10 * n + ((of_char c :: int) - 48)) 0 ds"

definition isArrayIndex :: "string \<Rightarrow> bool" where
  "isArrayIndex k =
     (k \<noteq> [] \<and> list_all isDigit k \<and> (if hd k = CHR ''0'' then k = ''0'' else True)
      \<and> digitsValue k < 2 ^ 32 - 1)"

definition Object_keys :: "(string \<times> 'v) list \<Rightarrow> string list" where
  "Object_keys obj =
     (let ks = map fst obj
      in sort_key digitsValue (filter isArrayIndex ks) @ filter (\<lambda>k. \<not> isArrayIndex k) ks)"

text \<open>
  Modelled from the spec: \<open>removeFromArray\<close> (utils/array) is not under src/. The
  spec's removal candidates are the existing slots whose column identity is not among
  the target columns; the helper takes one occurrence of the given id out of the list
  of keys, which has no duplicates.
\<close>

definition removeFromArray :: "'a list \<Rightarrow> 'a \<Rightarrow> 'a list" where
  "removeFromArray array object = remove1 object array"

text \<open>
  \<open>cellComps\<close> is created as \<open>{}\<close>, so reading it under a key that is no own key but
  names a property of \<open>Object.prototype\<close> gives that inherited property, a truthy
  value that is no cell: calling a cell method on it is a \<open>TypeError\<close>. This matters
  where the key is a column id handed in from outside (\<open>getCellForCol\<close>, the loop
  of \<open>insertCellsIntoContainer\<close>); \<open>destroyCells\<close>, \<open>isCellEligibleToBeRemoved\<close> and
  \<open>forEachCellComp\<close> are reached with own keys only (keys of \<open>Object.keys\<close>, or
  the key of a slot just read as a cell). Assigning under the id \<open>__proto__\<close> would
  replace the prototype of the object instead of making a slot: the loop of
  \<open>insertCellsIntoContainer\<close> never gets there, since the lookup before it throws, and
  a row for which \<open>createCells\<close> is given a column of that id is outside this model.
\<close>

definition objectPrototypeKeys :: "string list" where
  "objectPrototypeKeys =
     [''constructor'', ''hasOwnProperty'', ''isPrototypeOf'', ''propertyIsEnumerable'',
      ''toLocaleString'', ''toString'', ''valueOf'', ''__proto__'',
      ''__defineGetter__'', ''__defineSetter__'', ''__lookupGetter__'', ''__lookupSetter__'']"

text \<open>
  \<open>getCellForCol\<close>: the element of the column's cell, \<open>null\<close> (\<open>Some None\<close>) when the
  slot is absent or cleared, a \<open>TypeError\<close> (\<open>None\<close>) on an inherited property.
\<close>

definition getCellForCol :: "beans \<Rightarrow> rowController \<Rightarrow> column \<Rightarrow> element option option" where
  "getCellForCol b s col =
     (case map_of (cellComps s) (getId b col) of
        Some (Some cellComp') \<Rightarrow> Some (Some (eGui cellComp'))
      | Some None \<Rightarrow> Some None
      | None \<Rightarrow> (if getId b col \<in> set objectPrototypeKeys then None else Some None))"

text \<open>
  Modelled from the spec: the cell component (class \<open>CellComp\<close>) is not under src/.
  The cell factory takes the column, the row, the row element and the row's editing
  flag; a cell built in an editing row starts editing when its column is editable.
  \<open>newCellComp\<close> itself is the source's: it builds the cell, stores it under the
  column's id and appends its element to the row element (one trace entry).
\<close>

definition newCellComp :: "beans \<Rightarrow> column \<Rightarrow> element \<Rightarrow> rowController \<Rightarrow> rowController" where
  "newCellComp b col eRow s =
     (let cellComp' =
            \<lparr>eGui = nextElement s, cellColumn = col, parentRow = eRow,
             editingCell = (editingRow s \<and> isCellEditable b col),
             cellPos = \<lparr>posRowIndex = rowIndex (rowNode s),
                        posRowPinned = rowPinned (rowNode s), posColumn = col\<rparr>\<rparr>
      in s\<lparr>cellComps := AList.update (getId b col) (Some cellComp') (cellComps s),
           nextElement := Suc (nextElement s),
           trace := trace s @ [NewCellComp (nextElement s) col eRow (editingRow s)]\<rparr>)"

definition createCells :: "beans \<Rightarrow> column list \<Rightarrow> element \<Rightarrow> rowController \<Rightarrow> rowController" where
  "createCells b cols eRow s = fold (\<lambda>col. newCellComp b col eRow) cols s"

text \<open>
  \<open>destroyCells\<close>: a key whose slot is absent or \<open>null\<close> is skipped (the guard
  \<open>missing(cellComp)\<close> of utils/generic, the existence guard of the spec); otherwise
  the cell is detached and destroyed and the slot is set to \<open>null\<close>.
\<close>

fun destroyCells :: "string list \<Rightarrow> rowController \<Rightarrow> rowController" where
  "destroyCells [] s = s"
| "destroyCells (key # colIds) s =
     destroyCells colIds
       (case map_of (cellComps s) key of
          Some (Some cellComp') \<Rightarrow>
            s\<lparr>trace := trace s @ [CellDetach (eGui cellComp'), CellDestroy (eGui cellComp')],
              cellComps := AList.update key None (cellComps s)\<rparr>
        | _ \<Rightarrow> s)"

definition destroyContainingCells :: "rowController \<Rightarrow> rowController" where
  "destroyContainingCells s =
     (let cellsToDestroy = Object_keys (cellComps s)
      in destroyCells cellsToDestroy s)"

section \<open>Reconciling the cells of a row\<close>

text \<open>
  \<open>getContainerForCell\<close> reads \<open>getGui()\<close> of a row component; on an undefined row
  component this is a \<open>TypeError\<close>, the value \<open>None\<close>.
\<close>

definition getContainerForCell :: "rowController \<Rightarrow> pinned option \<Rightarrow> element option" where
  "getContainerForCell s pinnedType =
     (case pinnedType of
        Some PINNED_LEFT \<Rightarrow> map_option getGui (leftRowComp s)
      | Some PINNED_RIGHT \<Rightarrow> map_option getGui (rightRowComp s)
      | None \<Rightarrow> map_option getGui (centerRowComp s))"

definition isCellInWrongContainer :: "beans \<Rightarrow> rowController \<Rightarrow> cellComp \<Rightarrow> bool option" where
  "isCellInWrongContainer b s cellComp' =
     (let col = cellColumn cellComp'
      in do {
           eDesiredContainer \<leftarrow> getContainerForCell s (getPinned b col);
           let eOldContainer = parentRow cellComp';
           Some (eOldContainer \<noteq> eDesiredContainer)
         })"

definition isCellEligibleToBeRemoved :: "beans \<Rightarrow> rowController \<Rightarrow> string \<Rightarrow> bool option" where
  "isCellEligibleToBeRemoved b s indexStr =
     (let displayedColumns = getAllDisplayedColumns b
      in case map_of (cellComps s) indexStr of
           Some (Some renderedCell) \<Rightarrow>
             do {
               wrong \<leftarrow> isCellInWrongContainer b s renderedCell;
               if wrong then Some True
               else
                 (let editing = editingCell renderedCell;
                      focused = isCellFocused b (cellPos renderedCell);
                      mightWantToKeepCell = (editing \<or> focused)
                  in if mightWantToKeepCell
                     then (let col = cellColumn renderedCell;
                               cellStillDisplayed = (col \<in> set displayedColumns)
                           in Some (if cellStillDisplayed then False else True))
                     else Some True)
             }
         | _ \<Rightarrow> Some True)"

text \<open>
  The body of the loop of \<open>insertCellsIntoContainer\<close> for one target column. The
  container test is evaluated only for an existing cell bound to the same column
  object, as \<open>&&\<close> does. When the column id has no own slot but names an inherited
  property, \<open>existingCell\<close> is truthy and \<open>existingCell.getColumn()\<close> is a
  \<open>TypeError\<close>.
\<close>

definition insertCell :: "beans \<Rightarrow> element \<Rightarrow> column \<Rightarrow> rowController \<Rightarrow> rowController option" where
  "insertCell b eRow col s =
     (let colId = getId b col;
          existingCell = map_of (cellComps s) colId
      in case existingCell of
           Some (Some cell) \<Rightarrow>
             do {
               keep \<leftarrow> (if cellColumn cell = col
                        then map_option Not (isCellInWrongContainer b s cell)
                        else Some False);
               if keep then Some s
               else Some ((newCellComp b col eRow (destroyCells [colId] s))
                            \<lparr>elementOrderChanged := True\<rparr>)
             }
         | Some None \<Rightarrow> Some ((newCellComp b col eRow s)\<lparr>elementOrderChanged := True\<rparr>)
         | None \<Rightarrow>
             (if colId \<in> set objectPrototypeKeys then None
              else Some ((newCellComp b col eRow s)\<lparr>elementOrderChanged := True\<rparr>)))"

fun forEachOption :: "('a \<Rightarrow> 's \<Rightarrow> 's option) \<Rightarrow> 'a list \<Rightarrow> 's \<Rightarrow> 's option" where
  "forEachOption f [] s = Some s"
| "forEachOption f (x # xs) s =
     (case f x s of None \<Rightarrow> None | Some s' \<Rightarrow> forEachOption f xs s')"

fun filterOption :: "('a \<Rightarrow> bool option) \<Rightarrow> 'a list \<Rightarrow> 'a list option" where
  "filterOption p [] = Some []"
| "filterOption p (x # xs) =
     (case p x of
        None \<Rightarrow> None
      | Some keep \<Rightarrow>
          (case filterOption p xs of
             None \<Rightarrow> None
           | Some ys \<Rightarrow> Some (if keep then x # ys else ys)))"

text \<open>
  \<open>insertCellsIntoContainer\<close>. Its argument \<open>eRow\<close> is the element of a row component,
  so the guard \<open>if (!eRow) return\<close> never fires.
\<close>

definition insertCellsIntoContainer ::
  "beans \<Rightarrow> element \<Rightarrow> column list \<Rightarrow> rowController \<Rightarrow> rowController option" where
  "insertCellsIntoContainer b eRow cols s =
     do {
       s1 \<leftarrow> forEachOption (insertCell b eRow) cols s;
       if elementOrderChanged s1 \<and> isEnsureDomOrder b
       then do {
              correctChildOrder \<leftarrow> those (map (getCellForCol b s1) cols);
              Some (s1\<lparr>trace := trace s1 @ [SetDomChildOrder eRow correctChildOrder]\<rparr>)
            }
       else Some s1
     }"

definition insertIfPresent ::
  "beans \<Rightarrow> rowComp option \<Rightarrow> column list \<Rightarrow> rowController \<Rightarrow> rowController option" where
  "insertIfPresent b rowComp' cols s =
     (case rowComp' of
        None \<Rightarrow> Some s
      | Some rc \<Rightarrow> insertCellsIntoContainer b (getGui rc) cols s)"

definition refreshCellsInAnimationFrame :: "beans \<Rightarrow> rowController \<Rightarrow> rowController option" where
  "refreshCellsInAnimationFrame b s =
     (if \<not> active s then Some s
      else
        (let s0 = s\<lparr>columnRefreshPending := False\<rparr>;
             centerCols = (if printLayout s0 then getAllDisplayedColumns b
                           else getViewportCenterColumnsForRow b);
             leftCols = (if printLayout s0 then [] else getDisplayedLeftColumnsForRow b);
             rightCols = (if printLayout s0 then [] else getDisplayedRightColumnsForRow b)
         in do {
              center \<leftarrow> centerRowComp s0;
              s1 \<leftarrow> insertCellsIntoContainer b (getGui center) centerCols s0;
              s2 \<leftarrow> insertIfPresent b (leftRowComp s1) leftCols s1;
              s3 \<leftarrow> insertIfPresent b (rightRowComp s2) rightCols s2;
              let s4 = s3\<lparr>elementOrderChanged := False\<rparr>;
              let colIdsToRemove =
                    fold (\<lambda>col ids. removeFromArray ids (getId b col))
                      (centerCols @ leftCols @ rightCols) (Object_keys (cellComps s4));
              eligibleToBeRemoved \<leftarrow> filterOption (isCellEligibleToBeRemoved b s4) colIdsToRemove;
              Some (destroyCells eligibleToBeRemoved s4)
            }))"

definition onColumnMoved :: "rowController \<Rightarrow> rowController" where
  "onColumnMoved s = s\<lparr>elementOrderChanged := True\<rparr>"

definition areAllContainersReady :: "rowController \<Rightarrow> bool" where
  "areAllContainersReady s = (rowContainerReadyCount s = 3)"

text \<open>
  \<open>refreshCells\<close>: a reconcile request. The task queue belongs to the grid; creating a
  task is recorded in the trace.
\<close>

definition refreshCells :: "beans \<Rightarrow> rowController \<Rightarrow> rowController option" where
  "refreshCells b s =
     (if \<not> areAllContainersReady s then Some (s\<lparr>refreshNeeded := True\<rparr>)
      else
        (let suppressAnimationFrame = isSuppressAnimationFrame b;
             skipAnimationFrame = (suppressAnimationFrame \<or> printLayout s)
         in if skipAnimationFrame then refreshCellsInAnimationFrame b s
            else if columnRefreshPending s then Some s
            else Some (s\<lparr>trace := trace s @
                   [CreateTask RefreshCellsInAnimationFrame (rowIndex (rowNode s)) ''createTasksP1'']\<rparr>)))"

definition onDisplayedColumnsChanged :: "beans \<Rightarrow> rowController \<Rightarrow> rowController option" where
  "onDisplayedColumnsChanged b s = (if isFullWidth s then Some s else refreshCells b s)"

definition onVirtualColumnsChanged :: "beans \<Rightarrow> rowController \<Rightarrow> rowController option" where
  "onVirtualColumnsChanged b s = (if isFullWidth s then Some s else refreshCells b s)"

definition onColumnResized :: "beans \<Rightarrow> rowController \<Rightarrow> rowController option" where
  "onColumnResized b s = (if isFullWidth s then Some s else refreshCells b s)"

section \<open>Row editing\<close>

text \<open>
  \<open>forEachCellComp\<close> walks the keys of \<open>cellComps\<close> (\<open>iterateObject\<close> of
  utils/object goes through \<open>Object.keys\<close> and reads each slot when its turn comes)
  and calls the callback on every slot that holds a cell. A callback is a method of
  the cell: it returns the cell as the call leaves it and what the call did.
\<close>

type_synonym cellMethod = "cellComp \<Rightarrow> cellComp \<times> effect list"

fun forEachCellCompKeys :: "cellMethod \<Rightarrow> string list \<Rightarrow> rowController \<Rightarrow> rowController" where
  "forEachCellCompKeys callback [] s = s"
| "forEachCellCompKeys callback (key # keys) s =
     forEachCellCompKeys callback keys
       (case map_of (cellComps s) key of
          Some (Some cellComp') \<Rightarrow>
            (let (cellComp'', effects) = callback cellComp'
             in s\<lparr>cellComps := AList.update key (Some cellComp'') (cellComps s),
                  trace := trace s @ effects\<rparr>)
        | _ \<Rightarrow> s)"

definition forEachCellComp :: "cellMethod \<Rightarrow> rowController \<Rightarrow> rowController" where
  "forEachCellComp callback s = forEachCellCompKeys callback (Object_keys (cellComps s)) s"

text \<open>
  Modelled from the spec: the cell component (class \<open>CellComp\<close>) is not under src/.
  The cell exposes stop-editing(cancel) and start-editing(key, char, isSource); a
  stopped cell no longer edits, and a started cell edits when its column is editable.
\<close>

definition cellStopEditing :: "bool \<Rightarrow> cellMethod" where
  "cellStopEditing cancel cellComp' =
     (cellComp'\<lparr>editingCell := False\<rparr>, [CellStopEditing (eGui cellComp') cancel])"

definition cellStartEditingIfEnabled ::
  "beans \<Rightarrow> nat option \<Rightarrow> string option \<Rightarrow> bool \<Rightarrow> cellMethod" where
  "cellStartEditingIfEnabled b keyPress charPress cellStartedEdit cellComp' =
     ((if isCellEditable b (cellColumn cellComp') then cellComp'\<lparr>editingCell := True\<rparr>
       else cellComp'),
      [CellStartEditingIfEnabled (eGui cellComp') keyPress charPress cellStartedEdit])"

definition dispatchEvent :: "eventType \<Rightarrow> rowController \<Rightarrow> rowController" where
  "dispatchEvent ev s = s\<lparr>trace := trace s @ [DispatchEvent ev]\<rparr>"

definition setEditingRow :: "bool \<Rightarrow> rowController \<Rightarrow> rowController" where
  "setEditingRow val s =
     (let s1 = s\<lparr>editingRow := val\<rparr>;
          s2 = s1\<lparr>trace := trace s1 @
                 map (\<lambda>rowComp'. AddOrRemoveCssClass (getGui rowComp') ''ag-row-editing'' val)
                   (allRowComps s1)\<rparr>;
          event = (if val then EVENT_ROW_EDITING_STARTED else EVENT_ROW_EDITING_STOPPED)
      in dispatchEvent event s2)"

definition stopEditing :: "bool \<Rightarrow> rowController \<Rightarrow> rowController" where
  "stopEditing cancel s =
     (let s1 = forEachCellComp (cellStopEditing cancel) s
      in if \<not> editingRow s1 then s1
         else
           (let s2 = (if \<not> cancel then dispatchEvent EVENT_ROW_VALUE_CHANGED s1 else s1)
            in setEditingRow False s2))"

definition stopRowEditing :: "bool \<Rightarrow> rowController \<Rightarrow> rowController" where
  "stopRowEditing cancel s = stopEditing cancel s"

text \<open>
  \<open>startRowEditing\<close>: \<open>sourceRenderedCell\<close> is the cell that started the edit, if any,
  given by its identity.
\<close>

definition startRowEditing ::
  "beans \<Rightarrow> nat option \<Rightarrow> string option \<Rightarrow> element option \<Rightarrow> rowController \<Rightarrow> rowController" where
  "startRowEditing b keyPress charPress sourceRenderedCell s =
     (if editingRow s then s
      else
        (let s1 = forEachCellComp
                    (\<lambda>renderedCell.
                       (let cellStartedEdit = (Some (eGui renderedCell) = sourceRenderedCell)
                        in if cellStartedEdit
                           then cellStartEditingIfEnabled b keyPress charPress cellStartedEdit renderedCell
                           else cellStartEditingIfEnabled b None None cellStartedEdit renderedCell))
                    s
         in setEditingRow True s1))"

section \<open>Destroying the row\<close>

text \<open>
  The closure queued for a sliding entry calls \<open>onTopChanged\<close>, that is \<open>setRowTop\<close>
  with the row's top; an absent top (\<open>exists(pixels)\<close> false) leaves the row where it
  is. Pixels are integers here.
\<close>

definition isRowPinned :: "rowNode \<Rightarrow> bool" where
  "isRowPinned n = (rowPinned n \<noteq> None)"

definition applyPaginationOffset :: "beans \<Rightarrow> rowController \<Rightarrow> int \<Rightarrow> bool \<Rightarrow> int" where
  "applyPaginationOffset b s topPx reverse =
     (if isRowPinned (rowNode s) then topPx
      else
        (let pixelOffset = getPixelOffset b;
             multiplier = (if reverse then 1 else - 1)
         in topPx + (pixelOffset * multiplier)))"

definition setRowTop :: "beans \<Rightarrow> int option \<Rightarrow> rowController \<Rightarrow> rowController" where
  "setRowTop b pixels s =
     (if printLayout s then s
      else
        (case pixels of
           None \<Rightarrow> s
         | Some px \<Rightarrow>
             (let afterPaginationPixels = applyPaginationOffset b s px False;
                  afterScalingPixels =
                    (if isRowPinned (rowNode s) then afterPaginationPixels
                     else getRealPixelPosition b afterPaginationPixels);
                  suppressRowTransform = isSuppressRowTransform b
              in s\<lparr>trace := trace s @
                     map (\<lambda>rowComp'.
                            if suppressRowTransform
                            then SetStyleTop (getGui rowComp') afterScalingPixels
                            else SetStyleTransform (getGui rowComp') afterScalingPixels)
                       (allRowComps s)\<rparr>)))"

definition onTopChanged :: "beans \<Rightarrow> rowController \<Rightarrow> rowController" where
  "onTopChanged b s = setRowTop b (rowTop (rowNode s)) s"

text \<open>
  Calling a queued function. A caller's callback is opaque: the call is recorded.
\<close>

definition callFunc :: "beans \<Rightarrow> func \<Rightarrow> rowController \<Rightarrow> rowController" where
  "callFunc b f s =
     (case f of
        CallerFunc n \<Rightarrow> s\<lparr>trace := trace s @ [CallFunc n]\<rparr>
      | DestroyContainingCells \<Rightarrow> destroyContainingCells s
      | SlideRowInFunc \<Rightarrow> onTopChanged b s
      | FadeRowInFunc \<Rightarrow>
          s\<lparr>trace := trace s @
               map (\<lambda>rowComp'. RemoveCssClass (getGui rowComp') ''ag-opacity-zero'')
                 (allRowComps s)\<rparr>)"

definition destroyFullWidthComponents :: "beans \<Rightarrow> rowController \<Rightarrow> rowController" where
  "destroyFullWidthComponents b s =
     (let s1 = fold (callFunc b) (fullWidthRowDestroyFuncs s) s;
          s2 = s1\<lparr>fullWidthRowDestroyFuncs := []\<rparr>
      in s2\<lparr>trace := trace s2 @
              map (\<lambda>rowComp'. DestroyFullWidthComponent (getGui rowComp')) (allRowComps s2)\<rparr>)"

definition destroy :: "beans \<Rightarrow> bool \<Rightarrow> rowController \<Rightarrow> rowController" where
  "destroy b animate s =
     (let s0 = s\<lparr>active := False\<rparr>;
          s1 = destroyFullWidthComponents b s0;
          s2 = (if animate
                then (let s' = fold (callFunc b) (removeFirstPassFuncs s1) s1
                      in s'\<lparr>removeSecondPassFuncs := removeSecondPassFuncs s' @ [DestroyContainingCells]\<rparr>)
                else (let s' = destroyContainingCells s1;
                          (delayedDestroyFunctions, s'') = getAndClearDelayedDestroyFunctions s'
                      in fold (callFunc b) delayedDestroyFunctions s''))
      in s2\<lparr>trace := trace s2 @
              [DispatchLocalEvent EVENT_VIRTUAL_ROW_REMOVED,
               DispatchEvent EVENT_VIRTUAL_ROW_REMOVED,
               SuperDestroy]\<rparr>)"

section \<open>Example grid and rows\<close>

text \<open>
  A grid with three columns (objects 1, 2 and 3 with the ids \<open>name\<close>, \<open>age\<close> and
  \<open>city\<close>) and a row with its three row components (elements 10, 11 and 12 for
  centre, left and right), all containers ready and no cell yet.
\<close>

definition beans0 :: beans where
  "beans0 =
     \<lparr>doingMasterDetail = False, isPivotMode = False,
      isGroupUseEntireRow = (\<lambda>pivotMode. \<not> pivotMode),
      isSuppressAnimationFrame = False, isEnsureDomOrder = False,
      isSuppressRowTransform = False,
      getAllDisplayedColumns = [1, 2, 3], getViewportCenterColumnsForRow = [1, 2, 3],
      getDisplayedLeftColumnsForRow = [], getDisplayedRightColumnsForRow = [],
      getId = (\<lambda>col. if col = 1 then ''name'' else if col = 2 then ''age'' else ''city''),
      getPinned = (\<lambda>col. None), isCellEditable = (\<lambda>col. True),
      isCellFocused = (\<lambda>pos. False), getPixelOffset = 0,
      getRealPixelPosition = (\<lambda>px. px)\<rparr>"

definition rowNode0 :: rowNode where
  "rowNode0 =
     \<lparr>stub = False, isFullWidthCell = False, detail = False, group = False, footer = False,
      rowIndex = 0, rowPinned = None, rowTop = Some 0\<rparr>"

definition row0 :: rowController where
  "row0 =
     \<lparr>rowNode = rowNode0, rowType = Normal,
      allRowComps = [\<lparr>getGui = 10, getFullWidthRowComp = None\<rparr>,
                     \<lparr>getGui = 12, getFullWidthRowComp = None\<rparr>,
                     \<lparr>getGui = 11, getFullWidthRowComp = None\<rparr>],
      leftRowComp = Some \<lparr>getGui = 11, getFullWidthRowComp = None\<rparr>,
      rightRowComp = Some \<lparr>getGui = 12, getFullWidthRowComp = None\<rparr>,
      centerRowComp = Some \<lparr>getGui = 10, getFullWidthRowComp = None\<rparr>,
      fullWidthRowComp = None, fullWidthRowDestroyFuncs = [],
      active = True, editingRow = False, rowContainerReadyCount = 3, refreshNeeded = False,
      columnRefreshPending = False, cellComps = [],
      createSecondPassFuncs = [], removeFirstPassFuncs = [], removeSecondPassFuncs = [],
      fadeRowIn = False, slideRowIn = False, elementOrderChanged = False,
      printLayout = False, nextElement = 100, trace = []\<rparr>"

text \<open>A cell of the example row for a column, with a given element, container and editing flag.\<close>

definition cell0 :: "element \<Rightarrow> column \<Rightarrow> element \<Rightarrow> bool \<Rightarrow> cellComp" where
  "cell0 gui col eRow editing =
     \<lparr>eGui = gui, cellColumn = col, parentRow = eRow, editingCell = editing,
      cellPos = \<lparr>posRowIndex = 0, posRowPinned = None, posColumn = col\<rparr>\<rparr>"

text \<open>
  A full-width row that is not embedded: one row component (element 20) in the
  full-width container, holding a renderer with the given refresh method.
\<close>

definition fullWidthRow0 :: "(fullWidthParams \<Rightarrow> bool) option \<Rightarrow> rowController" where
  "fullWidthRow0 r =
     row0\<lparr>rowType := FullWidth,
          allRowComps := [\<lparr>getGui = 20,
                            getFullWidthRowComp = Some \<lparr>rendererGui = 21, refresh = r\<rparr>\<rparr>],
          leftRowComp := None, rightRowComp := None, centerRowComp := None,
          fullWidthRowComp := Some \<lparr>getGui = 20,
                                    getFullWidthRowComp = Some \<lparr>rendererGui = 21, refresh = r\<rparr>\<rparr>\<rparr>"

text \<open>
  The example row with two cells in the centre container: an editing cell (element
  100) for column 1 and a cell (element 101) for column 3; the slot of column 2 has
  been cleared.
\<close>

definition row1 :: rowController where
  "row1 =
     row0\<lparr>cellComps := [(''name'', Some (cell0 100 1 10 True)), (''age'', None),
                         (''city'', Some (cell0 101 3 10 False))],
          nextElement := 102\<rparr>"

text \<open>
  The same row with one caller callback in each of the two removal queues.
\<close>

definition row2 :: rowController where
  "row2 = row1\<lparr>removeFirstPassFuncs := [CallerFunc 7], removeSecondPassFuncs := [CallerFunc 8]\<rparr>"

text \<open>
  The grid scrolled so that column 1 is displayed but outside the viewport, and a row
  whose only cell is an editing cell for column 1 that sits in the left container
  (the column was pinned left when the cell was made and is not pinned any more).
\<close>

definition beans1 :: beans where
  "beans1 = beans0\<lparr>getViewportCenterColumnsForRow := [2, 3]\<rparr>"

definition row3 :: rowController where
  "row3 = row0\<lparr>cellComps := [(''name'', Some (cell0 100 1 11 True))], nextElement := 101\<rparr>"

text \<open>
  The grid with column 1 pinned left, and the example row in print layout.
\<close>

definition beans2 :: beans where
  "beans2 = beans0\<lparr>getPinned := (\<lambda>col. if col = 1 then Some PINNED_LEFT else None)\<rparr>"

definition row4 :: rowController where
  "row4 = row0\<lparr>printLayout := True\<rparr>"

text \<open>
  The print-layout row as the constructor leaves it: \<open>createCells\<close> has put a cell for
  every displayed column, the pinned column 1 too, into the centre element.
\<close>

definition row5 :: rowController where
  "row5 = createCells beans2 (getAllDisplayedColumns beans2) 10 row4"

section \<open>Properties of the classification\<close>

text \<open>
  Claim C3. The row type set at construction follows a first-match order: a stub row
  is \<open>FullWidthLoading\<close>; otherwise a detail row under master-detail is
  \<open>FullWidthDetail\<close>; otherwise a row the data source marks full-width is \<open>FullWidth\<close>;
  otherwise a group row that is not a footer, with group rows configured to use the
  entire row, is \<open>FullWidthGroup\<close>; otherwise the row is \<open>Normal\<close>. A footer row is
  never \<open>FullWidthGroup\<close>. Nothing but the row type changes.
\<close>

theorem setRowType_first_match:
  "(stub (rowNode s) \<longrightarrow> rowType (setRowType b s) = FullWidthLoading)
   \<and> (\<not> stub (rowNode s) \<and> doingMasterDetail b \<and> detail (rowNode s)
        \<longrightarrow> rowType (setRowType b s) = FullWidthDetail)
   \<and> (\<not> stub (rowNode s) \<and> \<not> (doingMasterDetail b \<and> detail (rowNode s))
        \<and> isFullWidthCell (rowNode s)
        \<longrightarrow> rowType (setRowType b s) = FullWidth)
   \<and> (\<not> stub (rowNode s) \<and> \<not> (doingMasterDetail b \<and> detail (rowNode s))
        \<and> \<not> isFullWidthCell (rowNode s)
        \<and> group (rowNode s) \<and> \<not> footer (rowNode s) \<and> isGroupUseEntireRow b (isPivotMode b)
        \<longrightarrow> rowType (setRowType b s) = FullWidthGroup)
   \<and> (\<not> stub (rowNode s) \<and> \<not> (doingMasterDetail b \<and> detail (rowNode s))
        \<and> \<not> isFullWidthCell (rowNode s)
        \<and> \<not> (group (rowNode s) \<and> \<not> footer (rowNode s) \<and> isGroupUseEntireRow b (isPivotMode b))
        \<longrightarrow> rowType (setRowType b s) = Normal)
   \<and> (footer (rowNode s) \<longrightarrow> rowType (setRowType b s) \<noteq> FullWidthGroup)
   \<and> setRowType b s = s\<lparr>rowType := rowType (setRowType b s)\<rparr>"
  by (simp add: setRowType_def Let_def)

theorem setRowType_first_match_witness:
  "footer (rowNode (row0\<lparr>rowNode := rowNode0\<lparr>group := True, footer := True\<rparr>\<rparr>))
   \<and> isGroupUseEntireRow beans0 (isPivotMode beans0)
   \<and> rowType (setRowType beans0 (row0\<lparr>rowNode := rowNode0\<lparr>group := True, footer := True\<rparr>\<rparr>)) = Normal
   \<and> rowType (setRowType beans0 (row0\<lparr>rowNode := rowNode0\<lparr>group := True\<rparr>\<rparr>)) = FullWidthGroup
   \<and> rowType (setRowType beans0 (row0\<lparr>rowNode := rowNode0\<lparr>group := True, stub := True\<rparr>\<rparr>)) = FullWidthLoading
   \<and> rowType (setRowType (beans0\<lparr>doingMasterDetail := True\<rparr>)
        (row0\<lparr>rowNode := rowNode0\<lparr>detail := True, isFullWidthCell := True\<rparr>\<rparr>)) = FullWidthDetail
   \<and> rowType (setRowType beans0
        (row0\<lparr>rowNode := rowNode0\<lparr>detail := True, isFullWidthCell := True\<rparr>\<rparr>)) = FullWidth"
  using setRowType_first_match [of "row0\<lparr>rowNode := rowNode0\<lparr>group := True, footer := True\<rparr>\<rparr>" beans0]
    setRowType_first_match [of "row0\<lparr>rowNode := rowNode0\<lparr>group := True\<rparr>\<rparr>" beans0]
    setRowType_first_match [of "row0\<lparr>rowNode := rowNode0\<lparr>group := True, stub := True\<rparr>\<rparr>" beans0]
    setRowType_first_match [of "row0\<lparr>rowNode := rowNode0\<lparr>detail := True, isFullWidthCell := True\<rparr>\<rparr>"
      "beans0\<lparr>doingMasterDetail := True\<rparr>"]
    setRowType_first_match [of "row0\<lparr>rowNode := rowNode0\<lparr>detail := True, isFullWidthCell := True\<rparr>\<rparr>" beans0]
  by (simp add: beans0_def rowNode0_def)

section \<open>Properties of the second-pass queues\<close>

lemma removeSecondPassFuncs_fold_add:
  "removeSecondPassFuncs (fold addRemoveSecondPassFunc fs s) = removeSecondPassFuncs s @ fs"
  by (induction fs arbitrary: s) (simp_all add: addRemoveSecondPassFunc_def)

text \<open>
  Claim C8. Each of the two get-and-clear operations returns the whole queue as it
  stands and leaves it empty, changing nothing else, so a second call right after
  returns the empty sequence. What is returned is what was added since the queue was
  last cleared: for the create queue the closures the constructor queued on an empty
  queue, for the remove queue the functions added after the previous get-and-clear.
\<close>

theorem getAndClear_returns_once:
  "getAndClearNextVMTurnFunctions s = (createSecondPassFuncs s, s\<lparr>createSecondPassFuncs := []\<rparr>)
   \<and> fst (getAndClearNextVMTurnFunctions (snd (getAndClearNextVMTurnFunctions s))) = []
   \<and> (createSecondPassFuncs s = [] \<longrightarrow>
        fst (getAndClearNextVMTurnFunctions (constructorSecondPass s)) =
          (if slideRowIn s then [SlideRowInFunc] else []) @ (if fadeRowIn s then [FadeRowInFunc] else []))
   \<and> getAndClearDelayedDestroyFunctions s = (removeSecondPassFuncs s, s\<lparr>removeSecondPassFuncs := []\<rparr>)
   \<and> fst (getAndClearDelayedDestroyFunctions (snd (getAndClearDelayedDestroyFunctions s))) = []
   \<and> fst (getAndClearDelayedDestroyFunctions
            (fold addRemoveSecondPassFunc fs (snd (getAndClearDelayedDestroyFunctions s)))) = fs"
  by (simp add: getAndClearNextVMTurnFunctions_def getAndClearDelayedDestroyFunctions_def
      constructorSecondPass_def removeSecondPassFuncs_fold_add)

theorem getAndClear_returns_once_witness:
  "createSecondPassFuncs (row0\<lparr>slideRowIn := True\<rparr>) = []
   \<and> fst (getAndClearNextVMTurnFunctions (constructorSecondPass (row0\<lparr>slideRowIn := True\<rparr>)))
       = [SlideRowInFunc]
   \<and> fst (getAndClearNextVMTurnFunctions
        (snd (getAndClearNextVMTurnFunctions (constructorSecondPass (row0\<lparr>slideRowIn := True\<rparr>))))) = []
   \<and> fst (getAndClearDelayedDestroyFunctions
            (fold addRemoveSecondPassFunc [CallerFunc 1, CallerFunc 2]
               (snd (getAndClearDelayedDestroyFunctions
                  (row0\<lparr>removeSecondPassFuncs := [CallerFunc 0]\<rparr>))))) = [CallerFunc 1, CallerFunc 2]"
  using getAndClear_returns_once [of "row0\<lparr>slideRowIn := True\<rparr>" "[]"]
    getAndClear_returns_once [of "constructorSecondPass (row0\<lparr>slideRowIn := True\<rparr>)" "[]"]
    getAndClear_returns_once [of "row0\<lparr>removeSecondPassFuncs := [CallerFunc 0]\<rparr>" "[CallerFunc 1, CallerFunc 2]"]
  by (simp add: row0_def getAndClearNextVMTurnFunctions_def getAndClearDelayedDestroyFunctions_def
      constructorSecondPass_def addRemoveSecondPassFunc_def)

section \<open>Properties of the full-width refresh\<close>

text \<open>
  Claim C6. \<open>refreshFullWidth\<close> answers true exactly when each of the four
  representations (full-width, centre, left, right) is absent (no row component, or no
  renderer in it) or has a refresh method that reports success on the parameters
  computed for it; a representation whose renderer has no refresh method makes the
  answer false.
\<close>

theorem refreshFullWidth_iff:
  "(refreshFullWidth s \<longleftrightarrow>
      (\<forall>(rep, pin) \<in> set [(fullWidthRowComp s, None), (centerRowComp s, None),
                          (leftRowComp s, Some PINNED_LEFT), (rightRowComp s, Some PINNED_RIGHT)].
         rep = None
         \<or> (\<exists>rc. rep = Some rc \<and> getFullWidthRowComp rc = None)
         \<or> (\<exists>rc comp r. rep = Some rc \<and> getFullWidthRowComp rc = Some comp \<and> refresh comp = Some r
               \<and> r (createFullWidthParams s (getGui rc) pin))))
   \<and> ((\<exists>rep \<in> set [fullWidthRowComp s, centerRowComp s, leftRowComp s, rightRowComp s].
         \<exists>rc comp. rep = Some rc \<and> getFullWidthRowComp rc = Some comp \<and> refresh comp = None)
        \<longrightarrow> \<not> refreshFullWidth s)"
  by (auto simp: refreshFullWidth_def tryRefresh_def split: option.splits)

theorem refreshFullWidth_iff_witness:
  "refreshFullWidth (fullWidthRow0 (Some (\<lambda>params. eGridCell params = 20)))
   \<and> \<not> refreshFullWidth (fullWidthRow0 (Some (\<lambda>params. False)))
   \<and> \<not> refreshFullWidth (fullWidthRow0 None)"
  using refreshFullWidth_iff [of "fullWidthRow0 (Some (\<lambda>params. eGridCell params = 20))"]
    refreshFullWidth_iff [of "fullWidthRow0 (Some (\<lambda>params. False))"]
    refreshFullWidth_iff [of "fullWidthRow0 None"]
  by (simp add: fullWidthRow0_def row0_def createFullWidthParams_def)

section \<open>Properties of row editing\<close>

lemma set_Object_keys: "set (Object_keys obj) = fst ` set obj"
  by (auto simp: Object_keys_def Let_def)

lemma forEachCellCompKeys_fields:
  "editingRow (forEachCellCompKeys m ks s) = editingRow s
   \<and> allRowComps (forEachCellCompKeys m ks s) = allRowComps s
   \<and> map fst (cellComps (forEachCellCompKeys m ks s)) = map fst (cellComps s)"
  by (induction ks arbitrary: s)
    (auto split: option.splits prod.splits simp: update_keys dest!: map_of_SomeD intro: rev_image_eqI)

lemma stop_view_update:
  "(case map_of (AList.update k (Some (fst (cellStopEditing cancel c))) al) k' of
      Some (Some c') \<Rightarrow> [CellStopEditing (eGui c') cancel] | _ \<Rightarrow> [])
   = (case (if k' = k then Some (Some c) else map_of al k') of
      Some (Some c') \<Rightarrow> [CellStopEditing (eGui c') cancel] | _ \<Rightarrow> [])"
  by (simp add: update_conv' cellStopEditing_def)

lemma forEachCellCompKeys_stop_trace:
  "trace (forEachCellCompKeys (cellStopEditing cancel) ks s) =
     trace s @ concat (map (\<lambda>k. case map_of (cellComps s) k of
                                   Some (Some c) \<Rightarrow> [CellStopEditing (eGui c) cancel]
                                 | _ \<Rightarrow> []) ks)"
proof (induction ks arbitrary: s)
  case Nil
  then show ?case by simp
next
  case (Cons k ks)
  show ?case
  proof (cases "map_of (cellComps s) k")
    case None
    then show ?thesis using Cons.IH [of s] by simp
  next
    case (Some slot)
    show ?thesis
    proof (cases slot)
      case None
      then show ?thesis using Some Cons.IH [of s] by simp
    next
      case (Some c)
      let ?s1 = "s\<lparr>cellComps := AList.update k (Some (fst (cellStopEditing cancel c))) (cellComps s),
                    trace := trace s @ snd (cellStopEditing cancel c)\<rparr>"
      have view: "\<And>k'. (case map_of (cellComps ?s1) k' of
                           Some (Some c') \<Rightarrow> [CellStopEditing (eGui c') cancel] | _ \<Rightarrow> [])
                       = (case map_of (cellComps s) k' of
                           Some (Some c') \<Rightarrow> [CellStopEditing (eGui c') cancel] | _ \<Rightarrow> [])"
        using Some \<open>map_of (cellComps s) k = Some slot\<close>
        by (simp add: stop_view_update)
      have step: "forEachCellCompKeys (cellStopEditing cancel) (k # ks) s
                  = forEachCellCompKeys (cellStopEditing cancel) ks ?s1"
        using Some \<open>map_of (cellComps s) k = Some slot\<close>
        by (simp add: case_prod_beta)
      show ?thesis
        unfolding step Cons.IH [of ?s1] view
        using Some \<open>map_of (cellComps s) k = Some slot\<close>
        by (simp add: cellStopEditing_def)
    qed
  qed
qed

lemma stopEditing_trace:
  "trace (stopEditing cancel s) =
     trace s
     @ concat (map (\<lambda>k. case map_of (cellComps s) k of
                           Some (Some c) \<Rightarrow> [CellStopEditing (eGui c) cancel]
                         | _ \<Rightarrow> []) (Object_keys (cellComps s)))
     @ (if editingRow s
        then (if cancel then [] else [DispatchEvent EVENT_ROW_VALUE_CHANGED])
             @ map (\<lambda>rowComp'. AddOrRemoveCssClass (getGui rowComp') ''ag-row-editing'' False)
                 (allRowComps s)
             @ [DispatchEvent EVENT_ROW_EDITING_STOPPED]
        else [])"
  by (induct cancel)
    (simp_all add: stopEditing_def forEachCellComp_def Let_def forEachCellCompKeys_fields
      forEachCellCompKeys_stop_trace setEditingRow_def dispatchEvent_def)

text \<open>
  Claim C10. For every cancel flag and every row state, editing or not,
  \<open>stopEditing\<close> first passes stop-with-cancel-flag to every slot that holds a cell, in
  the order of the keys; whatever else it does comes after. In particular every
  materialized cell receives the stop signal during the call.
\<close>

theorem stopEditing_reaches_every_cell:
  "(\<exists>rest. trace (stopEditing cancel s) =
       trace s
       @ concat (map (\<lambda>k. case map_of (cellComps s) k of
                             Some (Some c) \<Rightarrow> [CellStopEditing (eGui c) cancel]
                           | _ \<Rightarrow> []) (Object_keys (cellComps s)))
       @ rest)
   \<and> (\<forall>k c. map_of (cellComps s) k = Some (Some c) \<longrightarrow>
         CellStopEditing (eGui c) cancel \<in> set (drop (length (trace s)) (trace (stopEditing cancel s))))
   \<and> (\<not> editingRow s \<longrightarrow>
         trace (stopEditing cancel s) =
           trace s
           @ concat (map (\<lambda>k. case map_of (cellComps s) k of
                                 Some (Some c) \<Rightarrow> [CellStopEditing (eGui c) cancel]
                               | _ \<Rightarrow> []) (Object_keys (cellComps s))))"
proof (intro conjI allI impI)
  assume "\<not> editingRow s"
  then show "trace (stopEditing cancel s) =
           trace s
           @ concat (map (\<lambda>k. case map_of (cellComps s) k of
                                 Some (Some c) \<Rightarrow> [CellStopEditing (eGui c) cancel]
                               | _ \<Rightarrow> []) (Object_keys (cellComps s)))"
    by (simp add: stopEditing_trace)
next
  show "\<exists>rest. trace (stopEditing cancel s) =
       trace s
       @ concat (map (\<lambda>k. case map_of (cellComps s) k of
                             Some (Some c) \<Rightarrow> [CellStopEditing (eGui c) cancel]
                           | _ \<Rightarrow> []) (Object_keys (cellComps s)))
       @ rest"
    by (simp add: stopEditing_trace)
next
  fix k c
  assume slot: "map_of (cellComps s) k = Some (Some c)"
  then have "k \<in> set (Object_keys (cellComps s))"
    by (auto simp: set_Object_keys dest!: map_of_SomeD intro!: image_eqI [where x = "(k, Some c)"])
  then have "CellStopEditing (eGui c) cancel
      \<in> set (concat (map (\<lambda>k. case map_of (cellComps s) k of
                             Some (Some c) \<Rightarrow> [CellStopEditing (eGui c) cancel]
                           | _ \<Rightarrow> []) (Object_keys (cellComps s))))"
    using slot by (auto intro!: bexI [where x = k])
  then show "CellStopEditing (eGui c) cancel
      \<in> set (drop (length (trace s)) (trace (stopEditing cancel s)))"
    by (simp add: stopEditing_trace)
qed

theorem stopEditing_reaches_every_cell_witness:
  "\<not> editingRow row1
   \<and> map_of (cellComps row1) ''name'' = Some (Some (cell0 100 1 10 True))
   \<and> CellStopEditing 100 True \<in> set (drop (length (trace row1)) (trace (stopEditing True row1)))"
  using stopEditing_reaches_every_cell [of True row1, THEN conjunct2, THEN conjunct1, rule_format,
      of "''name''" "cell0 100 1 10 True"]
  by (simp add: row1_def row0_def cell0_def)

text \<open>
  Claim C7. On a row that is not editing, \<open>stopEditing\<close> without cancel only passes the
  stop signal to the cells: it dispatches no event (neither value-changed nor
  editing-stopped) and the row stays not editing. On a row that is editing,
  \<open>startRowEditing\<close> returns the state as it is: nothing is passed to any cell.
\<close>

theorem editing_idempotent_transitions:
  "(\<not> editingRow s \<longrightarrow>
      trace (stopEditing False s) =
        trace s @ concat (map (\<lambda>k. case map_of (cellComps s) k of
                                     Some (Some c) \<Rightarrow> [CellStopEditing (eGui c) False]
                                   | _ \<Rightarrow> []) (Object_keys (cellComps s)))
      \<and> (\<forall>ev. DispatchEvent ev \<notin> set (drop (length (trace s)) (trace (stopEditing False s))))
      \<and> \<not> editingRow (stopEditing False s))
   \<and> (editingRow s \<longrightarrow> startRowEditing b keyPress charPress sourceRenderedCell s = s)"
proof (intro conjI impI)
  assume ne: "\<not> editingRow s"
  show "trace (stopEditing False s) =
        trace s @ concat (map (\<lambda>k. case map_of (cellComps s) k of
                                     Some (Some c) \<Rightarrow> [CellStopEditing (eGui c) False]
                                   | _ \<Rightarrow> []) (Object_keys (cellComps s)))"
    using ne by (simp add: stopEditing_trace)
  show "\<forall>ev. DispatchEvent ev \<notin> set (drop (length (trace s)) (trace (stopEditing False s)))"
    using ne by (auto simp: stopEditing_trace split: option.splits)
  show "\<not> editingRow (stopEditing False s)"
    using ne by (simp add: stopEditing_def forEachCellComp_def Let_def forEachCellCompKeys_fields)
next
  assume "editingRow s"
  then show "startRowEditing b keyPress charPress sourceRenderedCell s = s"
    by (simp add: startRowEditing_def)
qed

theorem editing_idempotent_transitions_witness:
  "\<not> editingRow row1
   \<and> trace (stopEditing False row1) = [CellStopEditing 100 False, CellStopEditing 101 False]
   \<and> editingRow (row1\<lparr>editingRow := True\<rparr>)
   \<and> startRowEditing beans0 (Some 65) (Some ''a'') (Some 100) (row1\<lparr>editingRow := True\<rparr>)
       = row1\<lparr>editingRow := True\<rparr>"
  using editing_idempotent_transitions [of row1 beans0 "Some 65" "Some ''a''" "Some 100"]
    editing_idempotent_transitions [of "row1\<lparr>editingRow := True\<rparr>" beans0 "Some 65" "Some ''a''" "Some 100"]
  by (simp add: row1_def row0_def cell0_def Object_keys_def isArrayIndex_def isDigit_def)

section \<open>Properties of the reconcile requests\<close>

text \<open>
  Claim C2. With animation frames in use (no print layout, animation frames not
  suppressed) a second reconcile request made before the first queued one has run
  should be dropped. The flag \<open>columnRefreshPending\<close> that \<open>refreshCells\<close> tests is never
  set, so on the example row two requests in a row create two tasks.
\<close>

theorem refreshCells_twice_two_tasks:
  "\<not> isSuppressAnimationFrame beans0 \<and> \<not> printLayout row0 \<and> areAllContainersReady row0
   \<and> Option.bind (refreshCells beans0 row0) (refreshCells beans0) =
       Some (row0\<lparr>trace := [CreateTask RefreshCellsInAnimationFrame 0 ''createTasksP1'',
                             CreateTask RefreshCellsInAnimationFrame 0 ''createTasksP1'']\<rparr>)
   \<and> \<not> columnRefreshPending (the (refreshCells beans0 row0))"
  by (simp add: refreshCells_def areAllContainersReady_def beans0_def row0_def rowNode0_def)

section \<open>Properties of destroying the row\<close>

lemma destroyCells_fields:
  "rowNode (destroyCells ks s) = rowNode s
   \<and> allRowComps (destroyCells ks s) = allRowComps s
   \<and> leftRowComp (destroyCells ks s) = leftRowComp s
   \<and> rightRowComp (destroyCells ks s) = rightRowComp s
   \<and> centerRowComp (destroyCells ks s) = centerRowComp s
   \<and> removeSecondPassFuncs (destroyCells ks s) = removeSecondPassFuncs s
   \<and> removeFirstPassFuncs (destroyCells ks s) = removeFirstPassFuncs s
   \<and> editingRow (destroyCells ks s) = editingRow s
   \<and> elementOrderChanged (destroyCells ks s) = elementOrderChanged s
   \<and> columnRefreshPending (destroyCells ks s) = columnRefreshPending s
   \<and> printLayout (destroyCells ks s) = printLayout s
   \<and> active (destroyCells ks s) = active s
   \<and> nextElement (destroyCells ks s) = nextElement s"
  by (induction ks arbitrary: s) (auto split: option.splits)

lemma destroyCells_slot:
  "map_of (cellComps (destroyCells ks s)) k =
     (if k \<in> set ks
      then (case map_of (cellComps s) k of Some (Some c) \<Rightarrow> Some None | x \<Rightarrow> x)
      else map_of (cellComps s) k)"
  by (induction ks arbitrary: s) (auto split: option.splits simp: update_conv')

lemma destroyCells_trace:
  "\<exists>es. trace (destroyCells ks s) = trace s @ es
     \<and> (\<forall>k c. k \<in> set ks \<and> map_of (cellComps s) k = Some (Some c)
            \<longrightarrow> CellDestroy (eGui c) \<in> set es)
     \<and> (\<forall>e \<in> set es. \<exists>k c. k \<in> set ks \<and> map_of (cellComps s) k = Some (Some c)
            \<and> (e = CellDetach (eGui c) \<or> e = CellDestroy (eGui c)))"
proof (induction ks arbitrary: s)
  case Nil
  then show ?case by simp
next
  case (Cons key ks)
  show ?case
  proof (cases "\<exists>c. map_of (cellComps s) key = Some (Some c)")
    case False
    then have step: "destroyCells (key # ks) s = destroyCells ks s"
      by (auto split: option.splits)
    from Cons.IH [of s] obtain es where es: "trace (destroyCells ks s) = trace s @ es"
      "\<forall>k c. k \<in> set ks \<and> map_of (cellComps s) k = Some (Some c) \<longrightarrow> CellDestroy (eGui c) \<in> set es"
      "\<forall>e \<in> set es. \<exists>k c. k \<in> set ks \<and> map_of (cellComps s) k = Some (Some c)
            \<and> (e = CellDetach (eGui c) \<or> e = CellDestroy (eGui c))"
      by blast
    show ?thesis
      unfolding step using es False by (intro exI [of _ es] conjI) (simp, fastforce, fastforce)
  next
    case True
    then obtain c where c: "map_of (cellComps s) key = Some (Some c)" by blast
    let ?s1 = "s\<lparr>trace := trace s @ [CellDetach (eGui c), CellDestroy (eGui c)],
                  cellComps := AList.update key None (cellComps s)\<rparr>"
    have step: "destroyCells (key # ks) s = destroyCells ks ?s1"
      using c by simp
    have slots: "\<And>k. k \<noteq> key \<Longrightarrow> map_of (cellComps ?s1) k = map_of (cellComps s) k"
      by (simp add: update_conv')
    have slot_key: "map_of (cellComps ?s1) key = Some None"
      by (simp add: update_conv')
    from Cons.IH [of ?s1] obtain es where es: "trace (destroyCells ks ?s1) = trace ?s1 @ es"
      "\<forall>k c. k \<in> set ks \<and> map_of (cellComps ?s1) k = Some (Some c) \<longrightarrow> CellDestroy (eGui c) \<in> set es"
      "\<forall>e \<in> set es. \<exists>k c. k \<in> set ks \<and> map_of (cellComps ?s1) k = Some (Some c)
            \<and> (e = CellDetach (eGui c) \<or> e = CellDestroy (eGui c))"
      by blast
    let ?es = "[CellDetach (eGui c), CellDestroy (eGui c)] @ es"
    have t: "trace (destroyCells (key # ks) s) = trace s @ ?es"
      unfolding step es(1) by simp
    have a: "\<forall>k c'. k \<in> set (key # ks) \<and> map_of (cellComps s) k = Some (Some c')
            \<longrightarrow> CellDestroy (eGui c') \<in> set ?es"
    proof (intro allI impI)
      fix k c'
      assume h: "k \<in> set (key # ks) \<and> map_of (cellComps s) k = Some (Some c')"
      show "CellDestroy (eGui c') \<in> set ?es"
      proof (cases "k = key")
        case True
        then show ?thesis using h c by simp
      next
        case False
        then show ?thesis using h es(2) slots [of k] by auto
      qed
    qed
    have b: "\<forall>e \<in> set ?es. \<exists>k c'. k \<in> set (key # ks) \<and> map_of (cellComps s) k = Some (Some c')
            \<and> (e = CellDetach (eGui c') \<or> e = CellDestroy (eGui c'))"
    proof
      fix e
      assume "e \<in> set ?es"
      then consider "e = CellDetach (eGui c) \<or> e = CellDestroy (eGui c)" | "e \<in> set es"
        by auto
      then show "\<exists>k c'. k \<in> set (key # ks) \<and> map_of (cellComps s) k = Some (Some c')
            \<and> (e = CellDetach (eGui c') \<or> e = CellDestroy (eGui c'))"
      proof cases
        case 1
        then show ?thesis using c by (intro exI [of _ key] exI [of _ c]) simp
      next
        case 2
        with es(3) obtain k c' where kc: "k \<in> set ks" "map_of (cellComps ?s1) k = Some (Some c')"
          "e = CellDetach (eGui c') \<or> e = CellDestroy (eGui c')"
          by blast
        have "k \<noteq> key" using kc(2) slot_key by auto
        then show ?thesis using kc slots [of k] by (intro exI [of _ k] exI [of _ c']) simp
      qed
    qed
    show ?thesis using t a b by blast
  qed
qed

lemma destroyContainingCells_all_cleared:
  "map_of (cellComps (destroyContainingCells s)) k \<noteq> Some (Some c)"
proof
  assume h: "map_of (cellComps (destroyContainingCells s)) k = Some (Some c)"
  then have "map_of (cellComps s) k = Some (Some c) \<and> k \<notin> set (Object_keys (cellComps s))"
    by (auto simp: destroyContainingCells_def destroyCells_slot split: if_splits option.splits)
  then show False
    by (auto simp: set_Object_keys dest!: map_of_SomeD intro: rev_image_eqI)
qed

lemma fold_callFunc_callers:
  "fold (callFunc b) (map CallerFunc ns) s = s\<lparr>trace := trace s @ map CallFunc ns\<rparr>"
  by (induction ns arbitrary: s) (simp_all add: callFunc_def)

lemma setRowTop_fields:
  "cellComps (setRowTop b px s) = cellComps s
   \<and> removeSecondPassFuncs (setRowTop b px s) = removeSecondPassFuncs s
   \<and> (\<exists>es. trace (setRowTop b px s) = trace s @ es \<and> (\<forall>e \<in> set es. \<forall>g. e \<noteq> CellDestroy g))"
  by (auto simp: setRowTop_def Let_def split: option.splits)

lemma callFunc_removeSecondPassFuncs:
  "removeSecondPassFuncs (callFunc b f s) = removeSecondPassFuncs s"
  by (cases f)
    (simp_all add: callFunc_def destroyContainingCells_def destroyCells_fields onTopChanged_def
      setRowTop_fields)

lemma fold_callFunc_removeSecondPassFuncs:
  "removeSecondPassFuncs (fold (callFunc b) fs s) = removeSecondPassFuncs s"
  by (induction fs arbitrary: s) (simp_all add: callFunc_removeSecondPassFuncs)

lemma callFunc_cells:
  "\<exists>es. trace (callFunc b f s) = trace s @ es
     \<and> (\<forall>n. f = CallerFunc n \<longrightarrow> CallFunc n \<in> set es)
     \<and> (\<forall>k c. map_of (cellComps s) k = Some (Some c)
            \<longrightarrow> map_of (cellComps (callFunc b f s)) k = Some (Some c) \<or> CellDestroy (eGui c) \<in> set es)"
proof (cases f)
  case (CallerFunc n)
  then show ?thesis by (simp add: callFunc_def)
next
  case DestroyContainingCells
  from destroyCells_trace [of "Object_keys (cellComps s)" s]
  obtain es where es: "trace (destroyCells (Object_keys (cellComps s)) s) = trace s @ es"
    "\<forall>k c. k \<in> set (Object_keys (cellComps s)) \<and> map_of (cellComps s) k = Some (Some c)
        \<longrightarrow> CellDestroy (eGui c) \<in> set es"
    by blast
  have "\<forall>k c. map_of (cellComps s) k = Some (Some c) \<longrightarrow> CellDestroy (eGui c) \<in> set es"
  proof (intro allI impI)
    fix k c
    assume slot: "map_of (cellComps s) k = Some (Some c)"
    then have "k \<in> set (Object_keys (cellComps s))"
      by (auto simp: set_Object_keys dest!: map_of_SomeD intro: rev_image_eqI)
    with es(2) slot show "CellDestroy (eGui c) \<in> set es" by blast
  qed
  with es(1) show ?thesis
    using DestroyContainingCells by (simp add: callFunc_def destroyContainingCells_def)
next
  case SlideRowInFunc
  from setRowTop_fields [of b "rowTop (rowNode s)" s]
  show ?thesis using SlideRowInFunc by (auto simp: callFunc_def onTopChanged_def)
next
  case FadeRowInFunc
  then show ?thesis by (simp add: callFunc_def)
qed

lemma fold_callFunc_cells:
  "\<exists>es. trace (fold (callFunc b) fs s) = trace s @ es
     \<and> (\<forall>n. CallerFunc n \<in> set fs \<longrightarrow> CallFunc n \<in> set es)
     \<and> (\<forall>k c. map_of (cellComps s) k = Some (Some c)
            \<longrightarrow> map_of (cellComps (fold (callFunc b) fs s)) k = Some (Some c)
                \<or> CellDestroy (eGui c) \<in> set es)"
proof (induction fs arbitrary: s)
  case Nil
  then show ?case by simp
next
  case (Cons f fs)
  from callFunc_cells [of b f s] obtain es1 where es1:
    "trace (callFunc b f s) = trace s @ es1"
    "\<forall>n. f = CallerFunc n \<longrightarrow> CallFunc n \<in> set es1"
    "\<forall>k c. map_of (cellComps s) k = Some (Some c)
        \<longrightarrow> map_of (cellComps (callFunc b f s)) k = Some (Some c) \<or> CellDestroy (eGui c) \<in> set es1"
    by blast
  from Cons.IH [of "callFunc b f s"] obtain es2 where es2:
    "trace (fold (callFunc b) fs (callFunc b f s)) = trace (callFunc b f s) @ es2"
    "\<forall>n. CallerFunc n \<in> set fs \<longrightarrow> CallFunc n \<in> set es2"
    "\<forall>k c. map_of (cellComps (callFunc b f s)) k = Some (Some c)
        \<longrightarrow> map_of (cellComps (fold (callFunc b) fs (callFunc b f s))) k = Some (Some c)
            \<or> CellDestroy (eGui c) \<in> set es2"
    by blast
  have t: "trace (fold (callFunc b) (f # fs) s) = trace s @ (es1 @ es2)"
    using es1(1) es2(1) by simp
  have a: "\<forall>n. CallerFunc n \<in> set (f # fs) \<longrightarrow> CallFunc n \<in> set (es1 @ es2)"
    using es1(2) es2(2) by auto
  have c: "\<forall>k c. map_of (cellComps s) k = Some (Some c)
        \<longrightarrow> map_of (cellComps (fold (callFunc b) (f # fs) s)) k = Some (Some c)
            \<or> CellDestroy (eGui c) \<in> set (es1 @ es2)"
    using es1(3) es2(3) by fastforce
  show ?case using t a c by blast
qed

lemma callFunc_stays_cleared:
  "(\<forall>k c. map_of (cellComps s) k \<noteq> Some (Some c))
   \<Longrightarrow> map_of (cellComps (callFunc b f s)) k \<noteq> Some (Some c)"
  by (cases f)
    (simp_all add: callFunc_def destroyContainingCells_all_cleared onTopChanged_def setRowTop_fields)

lemma fold_callFunc_stays_cleared:
  "(\<forall>k c. map_of (cellComps s) k \<noteq> Some (Some c))
   \<Longrightarrow> map_of (cellComps (fold (callFunc b) fs s)) k \<noteq> Some (Some c)"
proof (induction fs arbitrary: s)
  case Nil
  then show ?case by simp
next
  case (Cons f fs)
  have "\<forall>k c. map_of (cellComps (callFunc b f s)) k \<noteq> Some (Some c)"
    using callFunc_stays_cleared [OF Cons.prems] by blast
  from Cons.IH [OF this] show ?case by simp
qed

lemma destroyFullWidthComponents_callers:
  "fullWidthRowDestroyFuncs s = map CallerFunc ms \<Longrightarrow>
   destroyFullWidthComponents b s =
     s\<lparr>fullWidthRowDestroyFuncs := [],
       trace := trace s @ map CallFunc ms
                @ map (\<lambda>rowComp'. DestroyFullWidthComponent (getGui rowComp')) (allRowComps s)\<rparr>"
  by (simp add: destroyFullWidthComponents_def fold_callFunc_callers)

lemma destroy_animate:
  assumes "fullWidthRowDestroyFuncs s = map CallerFunc ms"
    and "removeFirstPassFuncs s = map CallerFunc ns"
  shows "destroy b True s =
     s\<lparr>active := False, fullWidthRowDestroyFuncs := [],
       removeSecondPassFuncs := removeSecondPassFuncs s @ [DestroyContainingCells],
       trace := trace s @ map CallFunc ms
                @ map (\<lambda>rowComp'. DestroyFullWidthComponent (getGui rowComp')) (allRowComps s)
                @ map CallFunc ns
                @ [DispatchLocalEvent EVENT_VIRTUAL_ROW_REMOVED,
                   DispatchEvent EVENT_VIRTUAL_ROW_REMOVED, SuperDestroy]\<rparr>"
  using assms
  by (simp add: destroy_def destroyFullWidthComponents_callers [where ms = ms]
      fold_callFunc_callers Let_def)

lemma destroy_immediate:
  assumes fw: "fullWidthRowDestroyFuncs s = map CallerFunc ms"
  shows "(\<forall>k c. map_of (cellComps (destroy b False s)) k \<noteq> Some (Some c))
     \<and> (\<forall>k c. map_of (cellComps s) k = Some (Some c) \<longrightarrow>
           CellDestroy (eGui c) \<in> set (drop (length (trace s)) (trace (destroy b False s))))
     \<and> removeSecondPassFuncs (destroy b False s) = []
     \<and> (\<forall>n. CallerFunc n \<in> set (removeSecondPassFuncs s) \<longrightarrow>
           CallFunc n \<in> set (drop (length (trace s)) (trace (destroy b False s))))"
proof -
  let ?x = "map CallFunc ms
            @ map (\<lambda>rowComp'. DestroyFullWidthComponent (getGui rowComp')) (allRowComps s)"
  let ?s1 = "s\<lparr>active := False, fullWidthRowDestroyFuncs := [], trace := trace s @ ?x\<rparr>"
  let ?s' = "destroyContainingCells ?s1"
  let ?s'' = "?s'\<lparr>removeSecondPassFuncs := []\<rparr>"
  let ?r = "fold (callFunc b) (removeSecondPassFuncs s) ?s''"
  let ?ev = "[DispatchLocalEvent EVENT_VIRTUAL_ROW_REMOVED,
              DispatchEvent EVENT_VIRTUAL_ROW_REMOVED, SuperDestroy]"
  have s1: "destroyFullWidthComponents b (s\<lparr>active := False\<rparr>) = ?s1"
    using fw by (simp add: destroyFullWidthComponents_callers [where ms = ms])
  have q: "removeSecondPassFuncs ?s' = removeSecondPassFuncs s"
    by (simp add: destroyContainingCells_def destroyCells_fields)
  have d: "destroy b False s = ?r\<lparr>trace := trace ?r @ ?ev\<rparr>"
    by (simp add: destroy_def s1 Let_def getAndClearDelayedDestroyFunctions_def q)
  from destroyCells_trace [of "Object_keys (cellComps ?s1)" ?s1]
  obtain es where es: "trace ?s' = trace ?s1 @ es"
    "\<forall>k c. k \<in> set (Object_keys (cellComps ?s1)) \<and> map_of (cellComps ?s1) k = Some (Some c)
        \<longrightarrow> CellDestroy (eGui c) \<in> set es"
    unfolding destroyContainingCells_def Let_def by blast
  from fold_callFunc_cells [of b "removeSecondPassFuncs s" ?s'']
  obtain es2 where es2: "trace ?r = trace ?s'' @ es2"
    "\<forall>n. CallerFunc n \<in> set (removeSecondPassFuncs s) \<longrightarrow> CallFunc n \<in> set es2"
    by blast
  have t: "trace (destroy b False s) = trace s @ (?x @ es @ es2 @ ?ev)"
    using d es(1) es2(1) by simp
  have cleared: "\<forall>k c. map_of (cellComps ?s'') k \<noteq> Some (Some c)"
    using destroyContainingCells_all_cleared [of ?s1] by simp
  have a: "\<forall>k c. map_of (cellComps (destroy b False s)) k \<noteq> Some (Some c)"
    using fold_callFunc_stays_cleared [OF cleared, of b "removeSecondPassFuncs s"]
    by (simp add: d)
  have g: "\<forall>k c. map_of (cellComps s) k = Some (Some c) \<longrightarrow>
           CellDestroy (eGui c) \<in> set (drop (length (trace s)) (trace (destroy b False s)))"
  proof (intro allI impI)
    fix k c
    assume slot: "map_of (cellComps s) k = Some (Some c)"
    then have "k \<in> set (Object_keys (cellComps ?s1))"
      by (auto simp: set_Object_keys dest!: map_of_SomeD intro: rev_image_eqI)
    with es(2) slot have "CellDestroy (eGui c) \<in> set es" by simp
    then show "CellDestroy (eGui c) \<in> set (drop (length (trace s)) (trace (destroy b False s)))"
      unfolding t by simp
  qed
  have h: "removeSecondPassFuncs (destroy b False s) = []"
    by (simp add: d fold_callFunc_removeSecondPassFuncs)
  have i: "\<forall>n. CallerFunc n \<in> set (removeSecondPassFuncs s) \<longrightarrow>
           CallFunc n \<in> set (drop (length (trace s)) (trace (destroy b False s)))"
    using es2(2) unfolding t by simp
  show ?thesis using a g h i by blast
qed

lemma run_delayed_after_animate:
  assumes fw: "fullWidthRowDestroyFuncs s = map CallerFunc ms"
    and fp: "removeFirstPassFuncs s = map CallerFunc ns"
  shows "(\<forall>k c. map_of (cellComps
             (case getAndClearDelayedDestroyFunctions (destroy b True s) of
                (fs, s') \<Rightarrow> fold (callFunc b) fs s')) k \<noteq> Some (Some c))
     \<and> (\<forall>k c. map_of (cellComps s) k = Some (Some c) \<longrightarrow>
           CellDestroy (eGui c) \<in> set (drop (length (trace (destroy b True s)))
             (trace (case getAndClearDelayedDestroyFunctions (destroy b True s) of
                (fs, s') \<Rightarrow> fold (callFunc b) fs s'))))"
proof -
  let ?d = "destroy b True s"
  let ?t = "?d\<lparr>removeSecondPassFuncs := []\<rparr>"
  let ?m = "fold (callFunc b) (removeSecondPassFuncs s) ?t"
  have q: "removeSecondPassFuncs ?d = removeSecondPassFuncs s @ [DestroyContainingCells]"
    and cc: "cellComps ?d = cellComps s"
    by (simp_all add: destroy_animate [OF fw fp])
  have run: "(case getAndClearDelayedDestroyFunctions ?d of (fs, s') \<Rightarrow> fold (callFunc b) fs s')
             = destroyContainingCells ?m"
    by (simp add: getAndClearDelayedDestroyFunctions_def q callFunc_def)
  from fold_callFunc_cells [of b "removeSecondPassFuncs s" ?t]
  obtain es where es: "trace ?m = trace ?d @ es"
    "\<forall>k c. map_of (cellComps ?t) k = Some (Some c)
        \<longrightarrow> map_of (cellComps ?m) k = Some (Some c) \<or> CellDestroy (eGui c) \<in> set es"
    by auto
  from destroyCells_trace [of "Object_keys (cellComps ?m)" ?m]
  obtain es2 where es2: "trace (destroyContainingCells ?m) = trace ?m @ es2"
    "\<forall>k c. k \<in> set (Object_keys (cellComps ?m)) \<and> map_of (cellComps ?m) k = Some (Some c)
        \<longrightarrow> CellDestroy (eGui c) \<in> set es2"
    unfolding destroyContainingCells_def Let_def by blast
  have e: "\<forall>k c. map_of (cellComps s) k = Some (Some c) \<longrightarrow>
           CellDestroy (eGui c) \<in> set (drop (length (trace ?d)) (trace (destroyContainingCells ?m)))"
  proof (intro allI impI)
    fix k c
    assume slot: "map_of (cellComps s) k = Some (Some c)"
    then have "map_of (cellComps ?t) k = Some (Some c)" using cc by simp
    with es(2) consider "map_of (cellComps ?m) k = Some (Some c)" | "CellDestroy (eGui c) \<in> set es"
      by blast
    then have "CellDestroy (eGui c) \<in> set (es @ es2)"
    proof cases
      case 1
      then have "k \<in> set (Object_keys (cellComps ?m))"
        by (auto simp: set_Object_keys dest!: map_of_SomeD intro: rev_image_eqI)
      with es2(2) 1 show ?thesis by simp
    next
      case 2
      then show ?thesis by simp
    qed
    then show "CellDestroy (eGui c)
        \<in> set (drop (length (trace ?d)) (trace (destroyContainingCells ?m)))"
      using es(1) es2(1) by simp
  qed
  show ?thesis
    unfolding run using e destroyContainingCells_all_cleared [of ?m] by blast
qed

text \<open>
  Claim C9. Let the first-pass queue and the full-width destroy functions hold
  callbacks of callers. Then \<open>destroy\<close> with animation calls every first-pass callback
  during the call, in order, and destroys no cell: the slots are as before and the
  bound \<open>destroyContainingCells\<close> is queued last in the second-pass queue. Once
  \<open>getAndClearDelayedDestroyFunctions\<close> is called and the functions it returns are
  run, no slot holds a cell and every cell the row had has been destroyed. Without
  animation, \<open>destroy\<close> itself leaves no slot holding a cell, has destroyed every cell,
  has emptied the second-pass queue and has called the callbacks that were in it.
\<close>

theorem destroy_two_phase:
  assumes fw: "fullWidthRowDestroyFuncs s = map CallerFunc ms"
    and fp: "removeFirstPassFuncs s = map CallerFunc ns"
  shows "trace (destroy b True s) =
           trace s @ map CallFunc ms
           @ map (\<lambda>rowComp'. DestroyFullWidthComponent (getGui rowComp')) (allRowComps s)
           @ map CallFunc ns
           @ [DispatchLocalEvent EVENT_VIRTUAL_ROW_REMOVED,
              DispatchEvent EVENT_VIRTUAL_ROW_REMOVED, SuperDestroy]
     \<and> cellComps (destroy b True s) = cellComps s
     \<and> (\<forall>g. CellDestroy g \<notin> set (drop (length (trace s)) (trace (destroy b True s))))
     \<and> fst (getAndClearDelayedDestroyFunctions (destroy b True s))
         = removeSecondPassFuncs s @ [DestroyContainingCells]
     \<and> (\<forall>k c. map_of (cellComps
             (case getAndClearDelayedDestroyFunctions (destroy b True s) of
                (fs, s') \<Rightarrow> fold (callFunc b) fs s')) k \<noteq> Some (Some c))
     \<and> (\<forall>k c. map_of (cellComps s) k = Some (Some c) \<longrightarrow>
           CellDestroy (eGui c) \<in> set (drop (length (trace (destroy b True s)))
             (trace (case getAndClearDelayedDestroyFunctions (destroy b True s) of
                (fs, s') \<Rightarrow> fold (callFunc b) fs s'))))
     \<and> (\<forall>k c. map_of (cellComps (destroy b False s)) k \<noteq> Some (Some c))
     \<and> (\<forall>k c. map_of (cellComps s) k = Some (Some c) \<longrightarrow>
           CellDestroy (eGui c) \<in> set (drop (length (trace s)) (trace (destroy b False s))))
     \<and> removeSecondPassFuncs (destroy b False s) = []
     \<and> (\<forall>n. CallerFunc n \<in> set (removeSecondPassFuncs s) \<longrightarrow>
           CallFunc n \<in> set (drop (length (trace s)) (trace (destroy b False s))))"
proof -
  have a: "trace (destroy b True s) =
           trace s @ map CallFunc ms
           @ map (\<lambda>rowComp'. DestroyFullWidthComponent (getGui rowComp')) (allRowComps s)
           @ map CallFunc ns
           @ [DispatchLocalEvent EVENT_VIRTUAL_ROW_REMOVED,
              DispatchEvent EVENT_VIRTUAL_ROW_REMOVED, SuperDestroy]"
    and b: "cellComps (destroy b True s) = cellComps s"
    and c: "fst (getAndClearDelayedDestroyFunctions (destroy b True s))
         = removeSecondPassFuncs s @ [DestroyContainingCells]"
    by (simp_all add: destroy_animate [OF fw fp] getAndClearDelayedDestroyFunctions_def)
  have d: "\<forall>g. CellDestroy g \<notin> set (drop (length (trace s)) (trace (destroy b True s)))"
    unfolding a by auto
  note r = run_delayed_after_animate [OF fw fp, of b]
  note i = destroy_immediate [OF fw, of b]
  show ?thesis
    by (rule conjI [OF a conjI [OF b conjI [OF d conjI [OF c
          conjI [OF r [THEN conjunct1] conjI [OF r [THEN conjunct2] i]]]]]])
qed

theorem destroy_two_phase_witness:
  "fullWidthRowDestroyFuncs row2 = map CallerFunc []
   \<and> removeFirstPassFuncs row2 = map CallerFunc [7]
   \<and> trace (destroy beans0 True row2) =
       [DestroyFullWidthComponent 10, DestroyFullWidthComponent 12, DestroyFullWidthComponent 11,
        CallFunc 7, DispatchLocalEvent EVENT_VIRTUAL_ROW_REMOVED,
        DispatchEvent EVENT_VIRTUAL_ROW_REMOVED, SuperDestroy]
   \<and> cellComps (destroy beans0 True row2) = cellComps row2
   \<and> map_of (cellComps row2) ''name'' = Some (Some (cell0 100 1 10 True))
   \<and> CellDestroy 100 \<in> set (drop (length (trace (destroy beans0 True row2)))
             (trace (case getAndClearDelayedDestroyFunctions (destroy beans0 True row2) of
                (fs, s') \<Rightarrow> fold (callFunc beans0) fs s')))
   \<and> CellDestroy 100 \<in> set (drop (length (trace row2)) (trace (destroy beans0 False row2)))
   \<and> CallerFunc 8 \<in> set (removeSecondPassFuncs row2)
   \<and> CallFunc 8 \<in> set (drop (length (trace row2)) (trace (destroy beans0 False row2)))"
proof -
  have fw: "fullWidthRowDestroyFuncs row2 = map CallerFunc []"
    and fp: "removeFirstPassFuncs row2 = map CallerFunc [7]"
    and slot: "map_of (cellComps row2) ''name'' = Some (Some (cell0 100 1 10 True))"
    and q: "CallerFunc 8 \<in> set (removeSecondPassFuncs row2)"
    by (simp_all add: row2_def row1_def row0_def)
  have g: "eGui (cell0 100 1 10 True) = 100" by (simp add: cell0_def)
  have rc: "allRowComps row2 = [\<lparr>getGui = 10, getFullWidthRowComp = None\<rparr>,
                     \<lparr>getGui = 12, getFullWidthRowComp = None\<rparr>,
                     \<lparr>getGui = 11, getFullWidthRowComp = None\<rparr>]"
    and tr: "trace row2 = []"
    by (simp_all add: row2_def row1_def row0_def)
  note th = destroy_two_phase [OF fw fp, of beans0]
  have t1: "trace (destroy beans0 True row2) =
       [DestroyFullWidthComponent 10, DestroyFullWidthComponent 12, DestroyFullWidthComponent 11,
        CallFunc 7, DispatchLocalEvent EVENT_VIRTUAL_ROW_REMOVED,
        DispatchEvent EVENT_VIRTUAL_ROW_REMOVED, SuperDestroy]"
    using th [THEN conjunct1] by (simp add: rc tr)
  have t2: "cellComps (destroy beans0 True row2) = cellComps row2"
    using th [THEN conjunct2, THEN conjunct1] .
  note rest = th [THEN conjunct2, THEN conjunct2, THEN conjunct2, THEN conjunct2, THEN conjunct2]
  have t3: "CellDestroy 100 \<in> set (drop (length (trace (destroy beans0 True row2)))
             (trace (case getAndClearDelayedDestroyFunctions (destroy beans0 True row2) of
                (fs, s') \<Rightarrow> fold (callFunc beans0) fs s')))"
    using rest [THEN conjunct1, rule_format, OF slot] unfolding g .
  note rest2 = rest [THEN conjunct2, THEN conjunct2]
  have t4: "CellDestroy 100 \<in> set (drop (length (trace row2)) (trace (destroy beans0 False row2)))"
    using rest2 [THEN conjunct1, rule_format, OF slot] unfolding g .
  have t5: "CallFunc 8 \<in> set (drop (length (trace row2)) (trace (destroy beans0 False row2)))"
    using rest2 [THEN conjunct2, THEN conjunct2, rule_format, OF q] .
  show ?thesis
    by (rule conjI [OF fw conjI [OF fp conjI [OF t1 conjI [OF t2 conjI [OF slot
          conjI [OF t3 conjI [OF t4 conjI [OF q t5]]]]]]]])
qed

section \<open>Properties of the reconcile pass\<close>

text \<open>
  One step of the first pass, for a target column whose id has a slot holding a cell.
  The step leaves the state as it is exactly when the cell is bound to the very same
  column object and \<open>isCellInWrongContainer\<close> is false for it; otherwise the old cell
  is detached and destroyed first and a fresh cell for the target column is created in
  the row element being filled and stored in the slot.
\<close>

lemma insertCell_keep_or_replace:
  "(map_of (cellComps s) (getId b col) = Some (Some cell) \<and> cellColumn cell = col
      \<and> isCellInWrongContainer b s cell = Some False
     \<longrightarrow> insertCell b eRow col s = Some s)
   \<and> (map_of (cellComps s) (getId b col) = Some (Some cell) \<and> insertCell b eRow col s = Some s'
     \<longrightarrow> (s' = s \<longleftrightarrow> cellColumn cell = col \<and> isCellInWrongContainer b s cell = Some False))
   \<and> (map_of (cellComps s) (getId b col) = Some (Some cell)
      \<and> (cellColumn cell \<noteq> col \<or> isCellInWrongContainer b s cell = Some True)
     \<longrightarrow> (\<exists>s1. insertCell b eRow col s = Some s1
           \<and> trace s1 = trace s @ [CellDetach (eGui cell), CellDestroy (eGui cell),
                                    NewCellComp (nextElement s) col eRow (editingRow s)]
           \<and> (\<exists>cell1. map_of (cellComps s1) (getId b col) = Some (Some cell1)
                 \<and> eGui cell1 = nextElement s \<and> cellColumn cell1 = col \<and> parentRow cell1 = eRow)
           \<and> elementOrderChanged s1))
   \<and> forEachOption (insertCell b eRow) (col # cols) s
       = Option.bind (insertCell b eRow col s) (forEachOption (insertCell b eRow) cols)"
proof (intro conjI impI)
  assume "map_of (cellComps s) (getId b col) = Some (Some cell) \<and> cellColumn cell = col
      \<and> isCellInWrongContainer b s cell = Some False"
  then show "insertCell b eRow col s = Some s"
    by (simp add: insertCell_def Let_def)
next
  assume h: "map_of (cellComps s) (getId b col) = Some (Some cell) \<and> insertCell b eRow col s = Some s'"
  show "s' = s \<longleftrightarrow> cellColumn cell = col \<and> isCellInWrongContainer b s cell = Some False"
  proof
    assume "s' = s"
    with h have "trace s' = trace s" by simp
    then show "cellColumn cell = col \<and> isCellInWrongContainer b s cell = Some False"
      using h
      by (cases "isCellInWrongContainer b s cell")
        (auto simp: insertCell_def newCellComp_def Let_def split: if_splits)
  next
    assume "cellColumn cell = col \<and> isCellInWrongContainer b s cell = Some False"
    then show "s' = s" using h by (auto simp: insertCell_def Let_def)
  qed
next
  assume h: "map_of (cellComps s) (getId b col) = Some (Some cell)
      \<and> (cellColumn cell \<noteq> col \<or> isCellInWrongContainer b s cell = Some True)"
  then have "insertCell b eRow col s =
      Some ((newCellComp b col eRow (destroyCells [getId b col] s))\<lparr>elementOrderChanged := True\<rparr>)"
    by (auto simp: insertCell_def Let_def)
  then show "\<exists>s1. insertCell b eRow col s = Some s1
           \<and> trace s1 = trace s @ [CellDetach (eGui cell), CellDestroy (eGui cell),
                                    NewCellComp (nextElement s) col eRow (editingRow s)]
           \<and> (\<exists>cell1. map_of (cellComps s1) (getId b col) = Some (Some cell1)
                 \<and> eGui cell1 = nextElement s \<and> cellColumn cell1 = col \<and> parentRow cell1 = eRow)
           \<and> elementOrderChanged s1"
    using h by (simp add: newCellComp_def Let_def update_conv')
next
  show "forEachOption (insertCell b eRow) (col # cols) s
       = Option.bind (insertCell b eRow col s) (forEachOption (insertCell b eRow) cols)"
    by (cases "insertCell b eRow col s") simp_all
qed

lemma insertCell_inherited_property:
  "map_of (cellComps s) (getId b col) = None \<Longrightarrow> getId b col \<in> set objectPrototypeKeys
   \<Longrightarrow> insertCell b eRow col s = None"
  by (simp add: insertCell_def Let_def)

lemma isCellInWrongContainer_designated:
  "getContainerForCell s (getPinned b (cellColumn cell)) = Some e
   \<Longrightarrow> isCellInWrongContainer b s cell = Some (parentRow cell \<noteq> e)"
  by (simp add: isCellInWrongContainer_def Let_def)

lemma insertCell_cases:
  assumes "insertCell b eRow col s = Some s1"
  shows "s1 = s
     \<or> s1 = (newCellComp b col eRow (destroyCells [getId b col] s))\<lparr>elementOrderChanged := True\<rparr>
     \<or> s1 = (newCellComp b col eRow s)\<lparr>elementOrderChanged := True\<rparr>"
  using assms
  by (auto simp: insertCell_def Let_def simp del: destroyCells.simps
      split: option.splits if_splits bind_splits)

lemma newCellComp_frame:
  "(k \<noteq> getId b col \<longrightarrow> map_of (cellComps (newCellComp b col eRow s)) k = map_of (cellComps s) k)
     \<and> leftRowComp (newCellComp b col eRow s) = leftRowComp s
     \<and> rightRowComp (newCellComp b col eRow s) = rightRowComp s
     \<and> centerRowComp (newCellComp b col eRow s) = centerRowComp s
     \<and> trace (newCellComp b col eRow s)
         = trace s @ [NewCellComp (nextElement s) col eRow (editingRow s)]"
  by (simp add: newCellComp_def Let_def update_conv')

lemma insertCell_frame:
  assumes "insertCell b eRow col s = Some s1"
  shows "(k \<noteq> getId b col \<longrightarrow> map_of (cellComps s1) k = map_of (cellComps s) k)
     \<and> leftRowComp s1 = leftRowComp s \<and> rightRowComp s1 = rightRowComp s
     \<and> centerRowComp s1 = centerRowComp s
     \<and> (\<exists>es. trace s1 = trace s @ es)"
proof -
  from insertCell_cases [OF assms]
  consider "s1 = s"
    | "s1 = (newCellComp b col eRow (destroyCells [getId b col] s))\<lparr>elementOrderChanged := True\<rparr>"
    | "s1 = (newCellComp b col eRow s)\<lparr>elementOrderChanged := True\<rparr>"
    by blast
  then show ?thesis
  proof cases
    case 1
    then show ?thesis by simp
  next
    case 2
    let ?d = "destroyCells [getId b col] s"
    from destroyCells_trace [of "[getId b col]" s]
    obtain es where es: "trace ?d = trace s @ es" by blast
    have "trace s1 = trace s @ (es @ [NewCellComp (nextElement ?d) col eRow (editingRow ?d)])"
      unfolding 2 using es by (simp add: newCellComp_frame del: destroyCells.simps)
    then have t: "\<exists>es. trace s1 = trace s @ es" by blast
    have "(k \<noteq> getId b col \<longrightarrow> map_of (cellComps s1) k = map_of (cellComps s) k)
     \<and> leftRowComp s1 = leftRowComp s \<and> rightRowComp s1 = rightRowComp s
     \<and> centerRowComp s1 = centerRowComp s"
      unfolding 2
      by (simp add: newCellComp_frame destroyCells_fields destroyCells_slot del: destroyCells.simps)
    with t show ?thesis by blast
  next
    case 3
    then show ?thesis by (simp add: newCellComp_frame)
  qed
qed

lemma forEachOption_insertCell_frame:
  "forEachOption (insertCell b eRow) cols s = Some s1 \<Longrightarrow>
   (k \<notin> getId b ` set cols \<longrightarrow> map_of (cellComps s1) k = map_of (cellComps s) k)
     \<and> leftRowComp s1 = leftRowComp s \<and> rightRowComp s1 = rightRowComp s
     \<and> centerRowComp s1 = centerRowComp s
     \<and> (\<exists>es. trace s1 = trace s @ es)"
proof (induction cols arbitrary: s)
  case Nil
  then show ?case by simp
next
  case (Cons col cols)
  then obtain s0 where s0: "insertCell b eRow col s = Some s0"
    "forEachOption (insertCell b eRow) cols s0 = Some s1"
    by (auto split: option.splits)
  from insertCell_frame [OF s0(1), of k] Cons.IH [OF s0(2)]
  show ?case by auto
qed

lemma insertCellsIntoContainer_frame:
  assumes "insertCellsIntoContainer b eRow cols s = Some s1"
  shows "(k \<notin> getId b ` set cols \<longrightarrow> map_of (cellComps s1) k = map_of (cellComps s) k)
     \<and> leftRowComp s1 = leftRowComp s \<and> rightRowComp s1 = rightRowComp s
     \<and> centerRowComp s1 = centerRowComp s
     \<and> (\<exists>es. trace s1 = trace s @ es)"
proof -
  from assms obtain s0 where s0: "forEachOption (insertCell b eRow) cols s = Some s0"
    and s1: "s1 = s0 \<or> (\<exists>order. s1 = s0\<lparr>trace := trace s0 @ [SetDomChildOrder eRow order]\<rparr>)"
    by (auto simp: insertCellsIntoContainer_def Let_def split: bind_splits if_splits)
  from forEachOption_insertCell_frame [OF s0, of k] s1 show ?thesis by auto
qed

lemma insertIfPresent_frame:
  assumes "insertIfPresent b rc cols s = Some s1"
  shows "(k \<notin> getId b ` set cols \<longrightarrow> map_of (cellComps s1) k = map_of (cellComps s) k)
     \<and> leftRowComp s1 = leftRowComp s \<and> rightRowComp s1 = rightRowComp s
     \<and> centerRowComp s1 = centerRowComp s
     \<and> (\<exists>es. trace s1 = trace s @ es)"
  using assms insertCellsIntoContainer_frame [of b _ cols s s1 k]
  by (cases rc) (auto simp: insertIfPresent_def)

lemma filterOption_Cons:
  assumes "filterOption p (a # xs) = Some ys"
  obtains keep zs where "p a = Some keep" "filterOption p xs = Some zs"
    "ys = (if keep then a # zs else zs)"
proof (cases "p a")
  case None
  then show ?thesis using assms by simp
next
  case (Some keep)
  show ?thesis
  proof (cases "filterOption p xs")
    case None
    then show ?thesis using assms Some by simp
  next
    case (Some zs)
    then show ?thesis using assms \<open>p a = Some keep\<close> that [of keep zs] by simp
  qed
qed

lemma filterOption_set:
  "filterOption p xs = Some ys \<Longrightarrow> x \<in> set ys \<longleftrightarrow> x \<in> set xs \<and> p x = Some True"
proof (induction xs arbitrary: ys)
  case Nil
  then show ?case by simp
next
  case (Cons a xs)
  from Cons.prems obtain keep zs where k: "p a = Some keep" "filterOption p xs = Some zs"
    "ys = (if keep then a # zs else zs)"
    by (rule filterOption_Cons)
  from Cons.IH [OF k(2)] k(1) k(3) show ?case
    by (cases keep) auto
qed

lemma filterOption_defined:
  "filterOption p xs = Some ys \<Longrightarrow> x \<in> set xs \<Longrightarrow> p x \<noteq> None"
proof (induction xs arbitrary: ys)
  case Nil
  then show ?case by simp
next
  case (Cons a xs)
  from Cons.prems(1) obtain keep zs where k: "p a = Some keep" "filterOption p xs = Some zs"
    by (rule filterOption_Cons)
  from Cons.IH [OF k(2)] k(1) Cons.prems(2) show ?case
    by (cases "x = a") auto
qed

lemma fold_removeFromArray_keeps:
  "k \<in> set ks \<Longrightarrow> k \<notin> getId b ` set cols
   \<Longrightarrow> k \<in> set (fold (\<lambda>col ids. removeFromArray ids (getId b col)) cols ks)"
  by (induction cols arbitrary: ks) (auto simp: removeFromArray_def)

lemma isCellInWrongContainer_cong:
  "leftRowComp s1 = leftRowComp s \<Longrightarrow> rightRowComp s1 = rightRowComp s
   \<Longrightarrow> centerRowComp s1 = centerRowComp s
   \<Longrightarrow> isCellInWrongContainer b s1 c = isCellInWrongContainer b s c"
  by (simp add: isCellInWrongContainer_def getContainerForCell_def split: option.splits pinned.splits)

lemma isCellEligibleToBeRemoved_slot:
  "map_of (cellComps s) k = Some (Some cell) \<Longrightarrow>
   isCellEligibleToBeRemoved b s k =
     (case isCellInWrongContainer b s cell of
        None \<Rightarrow> None
      | Some wrong \<Rightarrow>
          Some (\<not> (\<not> wrong \<and> (editingCell cell \<or> isCellFocused b (cellPos cell))
                   \<and> cellColumn cell \<in> set (getAllDisplayedColumns b))))"
  by (auto simp: isCellEligibleToBeRemoved_def Let_def split: option.splits bind_splits)

lemma refreshCellsInAnimationFrame_steps:
  assumes act: "active s"
    and res: "refreshCellsInAnimationFrame b s = Some s'"
  obtains center s1 s2 s3 eligible where
    "centerRowComp s = Some center"
    "insertCellsIntoContainer b (getGui center)
       (if printLayout s then getAllDisplayedColumns b else getViewportCenterColumnsForRow b)
       (s\<lparr>columnRefreshPending := False\<rparr>) = Some s1"
    "insertIfPresent b (leftRowComp s1)
       (if printLayout s then [] else getDisplayedLeftColumnsForRow b) s1 = Some s2"
    "insertIfPresent b (rightRowComp s2)
       (if printLayout s then [] else getDisplayedRightColumnsForRow b) s2 = Some s3"
    "filterOption (isCellEligibleToBeRemoved b (s3\<lparr>elementOrderChanged := False\<rparr>))
       (fold (\<lambda>col ids. removeFromArray ids (getId b col))
          ((if printLayout s then getAllDisplayedColumns b else getViewportCenterColumnsForRow b)
           @ (if printLayout s then [] else getDisplayedLeftColumnsForRow b)
           @ (if printLayout s then [] else getDisplayedRightColumnsForRow b))
          (Object_keys (cellComps (s3\<lparr>elementOrderChanged := False\<rparr>)))) = Some eligible"
    "s' = destroyCells eligible (s3\<lparr>elementOrderChanged := False\<rparr>)"
  using res act
  unfolding refreshCellsInAnimationFrame_def
  by (simp add: Let_def bind_eq_Some_conv del: destroyCells.simps) blast

lemma slot_in_Object_keys:
  "map_of obj k = Some v \<Longrightarrow> k \<in> set (Object_keys obj)"
  by (auto simp: set_Object_keys dest!: map_of_SomeD intro: rev_image_eqI)

text \<open>
  Claim C1, as the code has it. Take a reconcile pass on an active row and a slot
  that holds a cell and whose key is not the id of any target column of the pass.
  The cell survives the pass exactly when it sits in the container that its column's
  pinned side designates, it is editing or focused, and its column is still in the
  full list of displayed columns. Otherwise the slot is cleared and the cell destroyed
  in that pass; in particular so when the displayed columns no longer contain the
  cell's column, whatever its editing or focus state.
\<close>

theorem stale_cell_exemption:
  assumes act: "active s"
    and res: "refreshCellsInAnimationFrame b s = Some s'"
    and slot: "map_of (cellComps s) k = Some (Some cell)"
    and absent: "k \<notin> getId b ` set (if printLayout s then getAllDisplayedColumns b
                   else getViewportCenterColumnsForRow b @ getDisplayedLeftColumnsForRow b
                        @ getDisplayedRightColumnsForRow b)"
  shows "(map_of (cellComps s') k = Some (Some cell) \<longleftrightarrow>
            isCellInWrongContainer b s cell = Some False
            \<and> (editingCell cell \<or> isCellFocused b (cellPos cell))
            \<and> cellColumn cell \<in> set (getAllDisplayedColumns b))
     \<and> (map_of (cellComps s') k \<noteq> Some (Some cell) \<longrightarrow>
            map_of (cellComps s') k = Some None
            \<and> CellDestroy (eGui cell) \<in> set (drop (length (trace s)) (trace s')))
     \<and> (cellColumn cell \<notin> set (getAllDisplayedColumns b) \<longrightarrow>
            map_of (cellComps s') k = Some None
            \<and> CellDestroy (eGui cell) \<in> set (drop (length (trace s)) (trace s')))"
proof -
  let ?cc = "if printLayout s then getAllDisplayedColumns b else getViewportCenterColumnsForRow b"
  let ?lc = "if printLayout s then [] else getDisplayedLeftColumnsForRow b"
  let ?rc = "if printLayout s then [] else getDisplayedRightColumnsForRow b"
  from refreshCellsInAnimationFrame_steps [OF act res]
  obtain center s1 s2 s3 eligible where
    c: "centerRowComp s = Some center"
    and s1: "insertCellsIntoContainer b (getGui center) ?cc (s\<lparr>columnRefreshPending := False\<rparr>) = Some s1"
    and s2: "insertIfPresent b (leftRowComp s1) ?lc s1 = Some s2"
    and s3: "insertIfPresent b (rightRowComp s2) ?rc s2 = Some s3"
    and el: "filterOption (isCellEligibleToBeRemoved b (s3\<lparr>elementOrderChanged := False\<rparr>))
       (fold (\<lambda>col ids. removeFromArray ids (getId b col)) (?cc @ ?lc @ ?rc)
          (Object_keys (cellComps (s3\<lparr>elementOrderChanged := False\<rparr>)))) = Some eligible"
    and s': "s' = destroyCells eligible (s3\<lparr>elementOrderChanged := False\<rparr>)"
    by blast
  let ?s4 = "s3\<lparr>elementOrderChanged := False\<rparr>"
  have kc: "k \<notin> getId b ` set ?cc" and kl: "k \<notin> getId b ` set ?lc" and kr: "k \<notin> getId b ` set ?rc"
    using absent by (auto split: if_splits)
  have kall: "k \<notin> getId b ` set (?cc @ ?lc @ ?rc)"
    using kc kl kr by auto
  note f1 = insertCellsIntoContainer_frame [OF s1, of k]
  note f2 = insertIfPresent_frame [OF s2, of k]
  note f3 = insertIfPresent_frame [OF s3, of k]
  have slot4: "map_of (cellComps ?s4) k = Some (Some cell)"
    using f1 f2 f3 kc kl kr slot by simp
  have rows4: "leftRowComp ?s4 = leftRowComp s" "rightRowComp ?s4 = rightRowComp s"
    "centerRowComp ?s4 = centerRowComp s"
    using f1 f2 f3 by simp_all
  obtain es0 where es0: "trace ?s4 = trace s @ es0"
    using f1 f2 f3 by auto
  have wrong4: "isCellInWrongContainer b ?s4 cell = isCellInWrongContainer b s cell"
    by (rule isCellInWrongContainer_cong [OF rows4])
  have cand: "k \<in> set (fold (\<lambda>col ids. removeFromArray ids (getId b col)) (?cc @ ?lc @ ?rc)
          (Object_keys (cellComps ?s4)))"
    by (rule fold_removeFromArray_keeps [OF slot_in_Object_keys [OF slot4] kall])
  have elig: "isCellEligibleToBeRemoved b ?s4 k =
     (case isCellInWrongContainer b s cell of
        None \<Rightarrow> None
      | Some wrong \<Rightarrow>
          Some (\<not> (\<not> wrong \<and> (editingCell cell \<or> isCellFocused b (cellPos cell))
                   \<and> cellColumn cell \<in> set (getAllDisplayedColumns b))))"
    using isCellEligibleToBeRemoved_slot [OF slot4, of b] wrong4 by simp
  have "isCellEligibleToBeRemoved b ?s4 k \<noteq> None"
    by (rule filterOption_defined [OF el cand])
  then obtain wrong where w: "isCellInWrongContainer b s cell = Some wrong"
    using elig by (cases "isCellInWrongContainer b s cell") auto
  let ?keep = "\<not> wrong \<and> (editingCell cell \<or> isCellFocused b (cellPos cell))
                   \<and> cellColumn cell \<in> set (getAllDisplayedColumns b)"
  have in_el: "k \<in> set eligible \<longleftrightarrow> \<not> ?keep"
    using filterOption_set [OF el, of k] cand elig w by simp
  have slot': "map_of (cellComps s') k = (if k \<in> set eligible then Some None else Some (Some cell))"
    unfolding s' using slot4 by (simp add: destroyCells_slot)
  from destroyCells_trace [of eligible ?s4]
  obtain es where es: "trace s' = trace ?s4 @ es"
    "\<forall>k c. k \<in> set eligible \<and> map_of (cellComps ?s4) k = Some (Some c)
        \<longrightarrow> CellDestroy (eGui c) \<in> set es"
    unfolding s' by blast
  have destroyed: "k \<in> set eligible \<Longrightarrow>
      CellDestroy (eGui cell) \<in> set (drop (length (trace s)) (trace s'))"
    using es slot4 es0 by simp
  have p1: "map_of (cellComps s') k = Some (Some cell) \<longleftrightarrow>
            isCellInWrongContainer b s cell = Some False
            \<and> (editingCell cell \<or> isCellFocused b (cellPos cell))
            \<and> cellColumn cell \<in> set (getAllDisplayedColumns b)"
    using slot' in_el w by auto
  have p2: "map_of (cellComps s') k \<noteq> Some (Some cell) \<longrightarrow>
            map_of (cellComps s') k = Some None
            \<and> CellDestroy (eGui cell) \<in> set (drop (length (trace s)) (trace s'))"
    using slot' destroyed by (cases "k \<in> set eligible") simp_all
  have p3: "cellColumn cell \<notin> set (getAllDisplayedColumns b) \<longrightarrow>
            map_of (cellComps s') k = Some None
            \<and> CellDestroy (eGui cell) \<in> set (drop (length (trace s)) (trace s'))"
    using slot' destroyed in_el by simp
  show ?thesis
    by (rule conjI [OF p1 conjI [OF p2 p3]])
qed

lemmas run_defs = refreshCellsInAnimationFrame_def insertCellsIntoContainer_def insertIfPresent_def
  insertCell_def newCellComp_def isCellInWrongContainer_def getContainerForCell_def
  isCellEligibleToBeRemoved_def removeFromArray_def Object_keys_def isArrayIndex_def isDigit_def
  digitsValue_def objectPrototypeKeys_def update_conv'

theorem stale_cell_exemption_witness:
  "active row1
   \<and> map_of (cellComps row1) ''name'' = Some (Some (cell0 100 1 10 True))
   \<and> ''name'' \<notin> getId beans1 ` set (if printLayout row1 then getAllDisplayedColumns beans1
                   else getViewportCenterColumnsForRow beans1 @ getDisplayedLeftColumnsForRow beans1
                        @ getDisplayedRightColumnsForRow beans1)
   \<and> (\<exists>s'. refreshCellsInAnimationFrame beans1 row1 = Some s'
          \<and> map_of (cellComps s') ''name'' = Some (Some (cell0 100 1 10 True)))
   \<and> (\<exists>s'. refreshCellsInAnimationFrame (beans1\<lparr>getAllDisplayedColumns := [2, 3]\<rparr>) row1 = Some s'
          \<and> map_of (cellComps s') ''name'' = Some None
          \<and> CellDestroy 100 \<in> set (drop (length (trace row1)) (trace s')))"
proof -
  let ?b2 = "beans1\<lparr>getAllDisplayedColumns := [2, 3]\<rparr>"
  have act: "active row1"
    and slot: "map_of (cellComps row1) ''name'' = Some (Some (cell0 100 1 10 True))"
    and absent: "''name'' \<notin> getId beans1 ` set (if printLayout row1 then getAllDisplayedColumns beans1
                   else getViewportCenterColumnsForRow beans1 @ getDisplayedLeftColumnsForRow beans1
                        @ getDisplayedRightColumnsForRow beans1)"
    and absent2: "''name'' \<notin> getId ?b2 ` set (if printLayout row1 then getAllDisplayedColumns ?b2
                   else getViewportCenterColumnsForRow ?b2 @ getDisplayedLeftColumnsForRow ?b2
                        @ getDisplayedRightColumnsForRow ?b2)"
    and keep: "isCellInWrongContainer beans1 row1 (cell0 100 1 10 True) = Some False
            \<and> (editingCell (cell0 100 1 10 True) \<or> isCellFocused beans1 (cellPos (cell0 100 1 10 True)))
            \<and> cellColumn (cell0 100 1 10 True) \<in> set (getAllDisplayedColumns beans1)"
    and gone: "cellColumn (cell0 100 1 10 True) \<notin> set (getAllDisplayedColumns ?b2)"
    and g: "eGui (cell0 100 1 10 True) = 100"
    by (simp_all add: beans1_def beans0_def row1_def row0_def cell0_def
        isCellInWrongContainer_def getContainerForCell_def)
  have "refreshCellsInAnimationFrame beans1 row1 \<noteq> None"
    by (simp add: beans1_def beans0_def row1_def row0_def rowNode0_def cell0_def run_defs)
  then obtain s' where res: "refreshCellsInAnimationFrame beans1 row1 = Some s'" by blast
  have "refreshCellsInAnimationFrame ?b2 row1 \<noteq> None"
    by (simp add: beans1_def beans0_def row1_def row0_def rowNode0_def cell0_def run_defs)
  then obtain s2 where res2: "refreshCellsInAnimationFrame ?b2 row1 = Some s2" by blast
  have a: "map_of (cellComps s') ''name'' = Some (Some (cell0 100 1 10 True))"
    using stale_cell_exemption [OF act res slot absent, THEN conjunct1] keep by blast
  have b: "map_of (cellComps s2) ''name'' = Some None
          \<and> CellDestroy 100 \<in> set (drop (length (trace row1)) (trace s2))"
    using stale_cell_exemption [OF act res2 slot absent2, THEN conjunct2, THEN conjunct2] gone
    unfolding g by blast
  have e1: "\<exists>s'. refreshCellsInAnimationFrame beans1 row1 = Some s'
          \<and> map_of (cellComps s') ''name'' = Some (Some (cell0 100 1 10 True))"
    using res a by blast
  have e2: "\<exists>s'. refreshCellsInAnimationFrame ?b2 row1 = Some s'
          \<and> map_of (cellComps s') ''name'' = Some None
          \<and> CellDestroy 100 \<in> set (drop (length (trace row1)) (trace s'))"
    using res2 b by blast
  show ?thesis
    by (rule conjI [OF act conjI [OF slot conjI [OF absent conjI [OF e1 e2]]]])
qed

text \<open>
  The claim C1 as stated, without the container condition, fails: the editing cell of
  the row \<open>row3\<close> is bound to a column that is still displayed and is in no target
  list, yet the pass destroys it, because it sits in the left container while its
  column is not pinned.
\<close>

theorem editing_cell_in_wrong_container_removed:
  "active row3
   \<and> map_of (cellComps row3) ''name'' = Some (Some (cell0 100 1 11 True))
   \<and> editingCell (cell0 100 1 11 True)
   \<and> cellColumn (cell0 100 1 11 True) \<in> set (getAllDisplayedColumns beans1)
   \<and> ''name'' \<notin> getId beans1 ` set (getViewportCenterColumnsForRow beans1
         @ getDisplayedLeftColumnsForRow beans1 @ getDisplayedRightColumnsForRow beans1)
   \<and> map_option (\<lambda>s'. map_of (cellComps s') ''name'') (refreshCellsInAnimationFrame beans1 row3)
       = Some (Some None)
   \<and> map_option trace (refreshCellsInAnimationFrame beans1 row3)
       = Some [NewCellComp 101 2 10 False, NewCellComp 102 3 10 False,
               CellDetach 100, CellDestroy 100]"
  by (simp add: beans1_def beans0_def row3_def row0_def rowNode0_def cell0_def run_defs)

lemma slot_key_present: "map_of al k = Some v \<Longrightarrow> k \<in> fst ` set al"
  by (auto dest!: map_of_SomeD intro: rev_image_eqI)

lemma destroyCells_keys:
  "map fst (cellComps (destroyCells ks s)) = map fst (cellComps s)"
  by (induction ks arbitrary: s) (auto split: option.splits simp: update_keys slot_key_present)

lemma destroyCells_noop:
  "(\<forall>k \<in> set ks. \<forall>c. map_of (cellComps s) k \<noteq> Some (Some c)) \<Longrightarrow> destroyCells ks s = s"
  by (induction ks arbitrary: s) (auto split: option.splits)

lemma destroyCells_flags:
  "fullWidthRowComp (destroyCells ks s) = fullWidthRowComp s
   \<and> refreshNeeded (destroyCells ks s) = refreshNeeded s
   \<and> rowContainerReadyCount (destroyCells ks s) = rowContainerReadyCount s"
  by (induction ks arbitrary: s) (auto split: option.splits)

lemma fold_removeFromArray_set:
  "distinct ks \<Longrightarrow>
   set (fold (\<lambda>col ids. removeFromArray ids (getId b col)) cols ks) = set ks - getId b ` set cols
   \<and> distinct (fold (\<lambda>col ids. removeFromArray ids (getId b col)) cols ks)"
proof (induction cols arbitrary: ks)
  case Nil
  then show ?case by simp
next
  case (Cons col cols)
  have d: "distinct (remove1 (getId b col) ks)" using Cons.prems by simp
  have s: "set (remove1 (getId b col) ks) = set ks - {getId b col}"
    using Cons.prems by simp
  from Cons.IH [OF d] s show ?case
    by (auto simp: removeFromArray_def)
qed

lemma distinct_Object_keys:
  "distinct (map fst obj) \<Longrightarrow> distinct (Object_keys obj)"
  by (auto simp: Object_keys_def Let_def)

lemma newCellComp_flags:
  "active (newCellComp b col eRow s) = active s
   \<and> printLayout (newCellComp b col eRow s) = printLayout s
   \<and> columnRefreshPending (newCellComp b col eRow s) = columnRefreshPending s
   \<and> (distinct (map fst (cellComps s)) \<longrightarrow> distinct (map fst (cellComps (newCellComp b col eRow s))))"
  by (simp add: newCellComp_def Let_def distinct_update)

lemma insertCell_flags:
  assumes "insertCell b eRow col s = Some s1"
  shows "active s1 = active s \<and> printLayout s1 = printLayout s
     \<and> columnRefreshPending s1 = columnRefreshPending s
     \<and> (distinct (map fst (cellComps s)) \<longrightarrow> distinct (map fst (cellComps s1)))"
proof -
  from insertCell_cases [OF assms]
  consider "s1 = s"
    | "s1 = (newCellComp b col eRow (destroyCells [getId b col] s))\<lparr>elementOrderChanged := True\<rparr>"
    | "s1 = (newCellComp b col eRow s)\<lparr>elementOrderChanged := True\<rparr>"
    by blast
  then show ?thesis
  proof cases
    case 1
    then show ?thesis by simp
  next
    case 2
    show ?thesis
      unfolding 2
      by (simp add: newCellComp_flags destroyCells_fields destroyCells_keys del: destroyCells.simps)
  next
    case 3
    then show ?thesis by (simp add: newCellComp_flags)
  qed
qed

lemma forEachOption_insertCell_flags:
  "forEachOption (insertCell b eRow) cols s = Some s1 \<Longrightarrow>
   active s1 = active s \<and> printLayout s1 = printLayout s
     \<and> columnRefreshPending s1 = columnRefreshPending s
     \<and> (distinct (map fst (cellComps s)) \<longrightarrow> distinct (map fst (cellComps s1)))"
proof (induction cols arbitrary: s)
  case Nil
  then show ?case by simp
next
  case (Cons col cols)
  then obtain s0 where s0: "insertCell b eRow col s = Some s0"
    "forEachOption (insertCell b eRow) cols s0 = Some s1"
    by (auto split: option.splits)
  from insertCell_flags [OF s0(1)] Cons.IH [OF s0(2)]
  show ?case by auto
qed

lemma insertCellsIntoContainer_flags:
  assumes "insertCellsIntoContainer b eRow cols s = Some s1"
  shows "active s1 = active s \<and> printLayout s1 = printLayout s
     \<and> columnRefreshPending s1 = columnRefreshPending s
     \<and> (distinct (map fst (cellComps s)) \<longrightarrow> distinct (map fst (cellComps s1)))"
proof -
  from assms obtain s0 where s0: "forEachOption (insertCell b eRow) cols s = Some s0"
    and s1: "s1 = s0 \<or> (\<exists>order. s1 = s0\<lparr>trace := trace s0 @ [SetDomChildOrder eRow order]\<rparr>)"
    by (auto simp: insertCellsIntoContainer_def Let_def split: bind_splits if_splits)
  from forEachOption_insertCell_flags [OF s0] s1 show ?thesis by auto
qed

lemma insertIfPresent_flags:
  assumes "insertIfPresent b rc cols s = Some s1"
  shows "active s1 = active s \<and> printLayout s1 = printLayout s
     \<and> columnRefreshPending s1 = columnRefreshPending s
     \<and> (distinct (map fst (cellComps s)) \<longrightarrow> distinct (map fst (cellComps s1)))"
  using assms insertCellsIntoContainer_flags [of b _ cols s s1]
  by (cases rc) (auto simp: insertIfPresent_def)

lemma insertCell_good:
  assumes ins: "insertCell b eRow col s = Some s1"
    and want: "getContainerForCell s (getPinned b col) = Some eRow"
  shows "\<exists>cell. map_of (cellComps s1) (getId b col) = Some (Some cell)
           \<and> cellColumn cell = col \<and> parentRow cell = eRow"
proof (cases "\<exists>cell. map_of (cellComps s) (getId b col) = Some (Some cell) \<and> cellColumn cell = col
                 \<and> isCellInWrongContainer b s cell = Some False")
  case True
  then obtain cell where c: "map_of (cellComps s) (getId b col) = Some (Some cell)"
    "cellColumn cell = col" "isCellInWrongContainer b s cell = Some False"
    by blast
  then have "s1 = s" using ins by (simp add: insertCell_def Let_def)
  moreover have "parentRow cell = eRow"
    using c(2,3) want by (simp add: isCellInWrongContainer_def Let_def)
  ultimately show ?thesis using c by blast
next
  case False
  then have "s1 = (newCellComp b col eRow (destroyCells [getId b col] s))\<lparr>elementOrderChanged := True\<rparr>
      \<or> s1 = (newCellComp b col eRow s)\<lparr>elementOrderChanged := True\<rparr>"
    using ins
    by (auto simp: insertCell_def Let_def simp del: destroyCells.simps
        split: option.splits if_splits bind_splits)
  then show ?thesis
    by (auto simp: newCellComp_def Let_def update_conv' simp del: destroyCells.simps)
qed

lemma insertCell_keeps_good:
  assumes good: "map_of (cellComps s) (getId b col) = Some (Some cell)"
    "cellColumn cell = col" "parentRow cell = eRow"
    and want: "getContainerForCell s (getPinned b col) = Some eRow"
  shows "insertCell b eRow col s = Some s"
  using good want by (simp add: insertCell_def Let_def isCellInWrongContainer_def)

lemma getContainerForCell_cong:
  "leftRowComp s1 = leftRowComp s \<Longrightarrow> rightRowComp s1 = rightRowComp s
   \<Longrightarrow> centerRowComp s1 = centerRowComp s
   \<Longrightarrow> getContainerForCell s1 p = getContainerForCell s p"
  by (simp add: getContainerForCell_def split: option.splits pinned.splits)

lemma forEachOption_insertCell_good:
  "forEachOption (insertCell b eRow) cols s = Some s1 \<Longrightarrow>
   distinct (map (getId b) cols) \<Longrightarrow>
   (\<forall>col \<in> set cols. getContainerForCell s (getPinned b col) = Some eRow) \<Longrightarrow>
   (\<forall>col \<in> set cols. \<exists>cell. map_of (cellComps s1) (getId b col) = Some (Some cell)
           \<and> cellColumn cell = col \<and> parentRow cell = eRow)"
proof (induction cols arbitrary: s)
  case Nil
  then show ?case by simp
next
  case (Cons col cols)
  from Cons.prems(1) obtain s0 where s0: "insertCell b eRow col s = Some s0"
    "forEachOption (insertCell b eRow) cols s0 = Some s1"
    by (auto split: option.splits)
  have want: "getContainerForCell s (getPinned b col) = Some eRow"
    using Cons.prems(3) by simp
  note fr = insertCell_frame [OF s0(1)]
  have want0: "\<forall>c \<in> set cols. getContainerForCell s0 (getPinned b c) = Some eRow"
    using Cons.prems(3) getContainerForCell_cong [of s0 s] fr [of "[]"] by simp
  have d: "distinct (map (getId b) cols)" and nk: "getId b col \<notin> getId b ` set cols"
    using Cons.prems(2) by auto
  from insertCell_good [OF s0(1) want] obtain cell
    where cell: "map_of (cellComps s0) (getId b col) = Some (Some cell)"
      "cellColumn cell = col" "parentRow cell = eRow"
    by blast
  have "map_of (cellComps s1) (getId b col) = map_of (cellComps s0) (getId b col)"
    using forEachOption_insertCell_frame [OF s0(2), of "getId b col"] nk by simp
  with cell have here: "\<exists>cell. map_of (cellComps s1) (getId b col) = Some (Some cell)
           \<and> cellColumn cell = col \<and> parentRow cell = eRow"
    by auto
  from Cons.IH [OF s0(2) d want0] here show ?case by simp
qed

lemma forEachOption_insertCell_all_good:
  "(\<forall>col \<in> set cols. (\<exists>cell. map_of (cellComps s) (getId b col) = Some (Some cell)
           \<and> cellColumn cell = col \<and> parentRow cell = eRow)
        \<and> getContainerForCell s (getPinned b col) = Some eRow)
   \<Longrightarrow> forEachOption (insertCell b eRow) cols s = Some s"
proof (induction cols)
  case Nil
  then show ?case by simp
next
  case (Cons col cols)
  then obtain cell where cell: "map_of (cellComps s) (getId b col) = Some (Some cell)"
      "cellColumn cell = col" "parentRow cell = eRow"
    and want: "getContainerForCell s (getPinned b col) = Some eRow"
    by auto
  have "insertCell b eRow col s = Some s"
    by (rule insertCell_keeps_good [OF cell want])
  then show ?case using Cons by simp
qed

lemma insertCellsIntoContainer_good:
  assumes ins: "insertCellsIntoContainer b eRow cols s = Some s1"
    and d: "distinct (map (getId b) cols)"
    and want: "\<forall>col \<in> set cols. getContainerForCell s (getPinned b col) = Some eRow"
  shows "\<forall>col \<in> set cols. \<exists>cell. map_of (cellComps s1) (getId b col) = Some (Some cell)
           \<and> cellColumn cell = col \<and> parentRow cell = eRow"
proof -
  from ins obtain s0 where s0: "forEachOption (insertCell b eRow) cols s = Some s0"
    and s1: "s1 = s0 \<or> (\<exists>order. s1 = s0\<lparr>trace := trace s0 @ [SetDomChildOrder eRow order]\<rparr>)"
    by (auto simp: insertCellsIntoContainer_def Let_def split: bind_splits if_splits)
  from forEachOption_insertCell_good [OF s0 d want] s1 show ?thesis by auto
qed

lemma insertCellsIntoContainer_all_good:
  assumes "\<forall>col \<in> set cols. (\<exists>cell. map_of (cellComps s) (getId b col) = Some (Some cell)
           \<and> cellColumn cell = col \<and> parentRow cell = eRow)
        \<and> getContainerForCell s (getPinned b col) = Some eRow"
    and "\<not> elementOrderChanged s"
  shows "insertCellsIntoContainer b eRow cols s = Some s"
  using forEachOption_insertCell_all_good [OF assms(1)] assms(2)
  by (simp add: insertCellsIntoContainer_def)

lemma Object_keys_cong:
  "map fst obj1 = map fst obj2 \<Longrightarrow> Object_keys obj1 = Object_keys obj2"
  by (simp add: Object_keys_def)

lemma filterOption_cong:
  "(\<forall>x \<in> set xs. p x = q x) \<Longrightarrow> filterOption p xs = filterOption q xs"
  by (induction xs) (simp_all split: option.splits)

lemma isCellEligibleToBeRemoved_cong:
  "map_of (cellComps s1) k = map_of (cellComps s) k \<Longrightarrow>
   leftRowComp s1 = leftRowComp s \<Longrightarrow> rightRowComp s1 = rightRowComp s \<Longrightarrow>
   centerRowComp s1 = centerRowComp s \<Longrightarrow>
   isCellEligibleToBeRemoved b s1 k = isCellEligibleToBeRemoved b s k"
  using isCellInWrongContainer_cong [of s1 s b]
  by (simp add: isCellEligibleToBeRemoved_def Let_def split: option.splits)

lemma isCellEligibleToBeRemoved_cleared:
  "(\<forall>c. map_of (cellComps s) k \<noteq> Some (Some c)) \<Longrightarrow> isCellEligibleToBeRemoved b s k = Some True"
  by (auto simp: isCellEligibleToBeRemoved_def Let_def split: option.splits)

lemma refreshCellsInAnimationFrame_SomeI:
  assumes "active s"
    and "centerRowComp s = Some center"
    and "insertCellsIntoContainer b (getGui center)
       (if printLayout s then getAllDisplayedColumns b else getViewportCenterColumnsForRow b)
       (s\<lparr>columnRefreshPending := False\<rparr>) = Some s1"
    and "insertIfPresent b (leftRowComp s1)
       (if printLayout s then [] else getDisplayedLeftColumnsForRow b) s1 = Some s2"
    and "insertIfPresent b (rightRowComp s2)
       (if printLayout s then [] else getDisplayedRightColumnsForRow b) s2 = Some s3"
    and "filterOption (isCellEligibleToBeRemoved b (s3\<lparr>elementOrderChanged := False\<rparr>))
       (fold (\<lambda>col ids. removeFromArray ids (getId b col))
          ((if printLayout s then getAllDisplayedColumns b else getViewportCenterColumnsForRow b)
           @ (if printLayout s then [] else getDisplayedLeftColumnsForRow b)
           @ (if printLayout s then [] else getDisplayedRightColumnsForRow b))
          (Object_keys (cellComps (s3\<lparr>elementOrderChanged := False\<rparr>)))) = Some eligible"
  shows "refreshCellsInAnimationFrame b s = Some (destroyCells eligible (s3\<lparr>elementOrderChanged := False\<rparr>))"
  using assms
  unfolding refreshCellsInAnimationFrame_def
  by (simp add: Let_def del: destroyCells.simps)

text \<open>
  A second reconcile right after a first one changes nothing, provided the row has its
  three row components, the target columns have pairwise different ids, and every
  target column's pinned side designates the container it is a target of: centre
  targets are not pinned, left targets are pinned left, right targets are pinned
  right. In print layout this asks that no displayed column is pinned.
\<close>

lemma refreshCellsInAnimationFrame_idempotent_aligned:
  assumes res: "refreshCellsInAnimationFrame b s = Some s'"
    and rows: "centerRowComp s = Some center" "leftRowComp s = Some left" "rightRowComp s = Some right"
    and keys: "distinct (map fst (cellComps s))"
    and ids: "distinct (map (getId b)
         ((if printLayout s then getAllDisplayedColumns b else getViewportCenterColumnsForRow b)
           @ (if printLayout s then [] else getDisplayedLeftColumnsForRow b)
           @ (if printLayout s then [] else getDisplayedRightColumnsForRow b)))"
    and pc: "\<forall>col \<in> set (if printLayout s then getAllDisplayedColumns b
                            else getViewportCenterColumnsForRow b). getPinned b col = None"
    and pl: "\<forall>col \<in> set (if printLayout s then [] else getDisplayedLeftColumnsForRow b).
               getPinned b col = Some PINNED_LEFT"
    and pr: "\<forall>col \<in> set (if printLayout s then [] else getDisplayedRightColumnsForRow b).
               getPinned b col = Some PINNED_RIGHT"
  shows "refreshCellsInAnimationFrame b s' = Some s'"
proof (cases "active s")
  case False
  then have "s' = s" using res by (simp add: refreshCellsInAnimationFrame_def)
  then show ?thesis using False by (simp add: refreshCellsInAnimationFrame_def)
next
  case act: True
  let ?cc = "if printLayout s then getAllDisplayedColumns b else getViewportCenterColumnsForRow b"
  let ?lc = "if printLayout s then [] else getDisplayedLeftColumnsForRow b"
  let ?rc = "if printLayout s then [] else getDisplayedRightColumnsForRow b"
  let ?s0 = "s\<lparr>columnRefreshPending := False\<rparr>"
  from refreshCellsInAnimationFrame_steps [OF act res]
  obtain center' s1 s2 s3 eligible where
    c: "centerRowComp s = Some center'"
    and s1: "insertCellsIntoContainer b (getGui center') ?cc ?s0 = Some s1"
    and s2: "insertIfPresent b (leftRowComp s1) ?lc s1 = Some s2"
    and s3: "insertIfPresent b (rightRowComp s2) ?rc s2 = Some s3"
    and el: "filterOption (isCellEligibleToBeRemoved b (s3\<lparr>elementOrderChanged := False\<rparr>))
       (fold (\<lambda>col ids. removeFromArray ids (getId b col)) (?cc @ ?lc @ ?rc)
          (Object_keys (cellComps (s3\<lparr>elementOrderChanged := False\<rparr>)))) = Some eligible"
    and s': "s' = destroyCells eligible (s3\<lparr>elementOrderChanged := False\<rparr>)"
    by blast
  let ?s4 = "s3\<lparr>elementOrderChanged := False\<rparr>"
  let ?cand = "fold (\<lambda>col ids. removeFromArray ids (getId b col)) (?cc @ ?lc @ ?rc)
          (Object_keys (cellComps ?s4))"
  have center: "center' = center" using c rows(1) by simp
  note f1 = insertCellsIntoContainer_frame [OF s1]
  note f2 = insertIfPresent_frame [OF s2]
  note f3 = insertIfPresent_frame [OF s3]
  have rows1: "centerRowComp s1 = Some center" "leftRowComp s1 = Some left" "rightRowComp s1 = Some right"
    using f1 [of "[]"] rows by simp_all
  have rows2: "centerRowComp s2 = Some center" "leftRowComp s2 = Some left" "rightRowComp s2 = Some right"
    using f2 [of "[]"] rows1 by simp_all
  have rows3: "centerRowComp s3 = Some center" "leftRowComp s3 = Some left" "rightRowComp s3 = Some right"
    using f3 [of "[]"] rows2 by simp_all
  have rows': "centerRowComp s' = Some center" "leftRowComp s' = Some left" "rightRowComp s' = Some right"
    unfolding s' using rows3 by (simp_all add: destroyCells_fields)
  note g1 = insertCellsIntoContainer_flags [OF s1]
  note g2 = insertIfPresent_flags [OF s2]
  note g3 = insertIfPresent_flags [OF s3]
  have act': "active s'" and pl': "printLayout s' = printLayout s"
    and crp': "columnRefreshPending s' = False" and eoc': "elementOrderChanged s' = False"
    unfolding s' using g1 g2 g3 act by (simp_all add: destroyCells_fields)
  have keys4: "distinct (map fst (cellComps ?s4))"
    using g1 g2 g3 keys by simp
  have wc: "\<And>t. centerRowComp t = Some center \<Longrightarrow>
      \<forall>col \<in> set ?cc. getContainerForCell t (getPinned b col) = Some (getGui center)"
    using pc by (simp add: getContainerForCell_def)
  have wl: "\<And>t. leftRowComp t = Some left \<Longrightarrow>
      \<forall>col \<in> set ?lc. getContainerForCell t (getPinned b col) = Some (getGui left)"
    using pl by (simp add: getContainerForCell_def)
  have wr: "\<And>t. rightRowComp t = Some right \<Longrightarrow>
      \<forall>col \<in> set ?rc. getContainerForCell t (getPinned b col) = Some (getGui right)"
    using pr by (simp add: getContainerForCell_def)
  have dc: "distinct (map (getId b) ?cc)" and dl: "distinct (map (getId b) ?lc)"
    and dr: "distinct (map (getId b) ?rc)"
    and cl: "getId b ` set ?cc \<inter> getId b ` set ?lc = {}"
    and cr: "getId b ` set ?cc \<inter> getId b ` set ?rc = {}"
    and lr: "getId b ` set ?lc \<inter> getId b ` set ?rc = {}"
    using ids by (auto split: if_splits)
  have good1: "\<forall>col \<in> set ?cc. \<exists>cell. map_of (cellComps s1) (getId b col) = Some (Some cell)
           \<and> cellColumn cell = col \<and> parentRow cell = getGui center"
    using insertCellsIntoContainer_good [OF s1 dc] wc [of ?s0] rows(1) center by simp
  have good2l: "\<forall>col \<in> set ?lc. \<exists>cell. map_of (cellComps s2) (getId b col) = Some (Some cell)
           \<and> cellColumn cell = col \<and> parentRow cell = getGui left"
    using s2 rows1(2) insertCellsIntoContainer_good [of b "getGui left" ?lc s1 s2, OF _ dl]
      wl [OF rows1(2)]
    by (simp add: insertIfPresent_def)
  have good3r: "\<forall>col \<in> set ?rc. \<exists>cell. map_of (cellComps s3) (getId b col) = Some (Some cell)
           \<and> cellColumn cell = col \<and> parentRow cell = getGui right"
    using s3 rows2(3) insertCellsIntoContainer_good [of b "getGui right" ?rc s2 s3, OF _ dr]
      wr [OF rows2(3)]
    by (simp add: insertIfPresent_def)
  have keep12: "\<And>col. col \<in> set ?cc \<Longrightarrow>
      map_of (cellComps s3) (getId b col) = map_of (cellComps s1) (getId b col)"
  proof -
    fix col assume "col \<in> set ?cc"
    then have "getId b col \<notin> getId b ` set ?lc" "getId b col \<notin> getId b ` set ?rc"
      using cl cr by blast+
    then show "map_of (cellComps s3) (getId b col) = map_of (cellComps s1) (getId b col)"
      using f2 [of "getId b col"] f3 [of "getId b col"] by simp
  qed
  have keep23: "\<And>col. col \<in> set ?lc \<Longrightarrow>
      map_of (cellComps s3) (getId b col) = map_of (cellComps s2) (getId b col)"
  proof -
    fix col assume "col \<in> set ?lc"
    then have "getId b col \<notin> getId b ` set ?rc"
      using lr by blast
    then show "map_of (cellComps s3) (getId b col) = map_of (cellComps s2) (getId b col)"
      using f3 [of "getId b col"] by simp
  qed
  have cand_set: "set ?cand = set (Object_keys (cellComps ?s4)) - getId b ` set (?cc @ ?lc @ ?rc)"
    using fold_removeFromArray_set [OF distinct_Object_keys [OF keys4], of b "?cc @ ?lc @ ?rc"]
    by blast
  have el_sub: "set eligible \<subseteq> set ?cand"
    using filterOption_set [OF el] by blast
  have target_kept: "\<And>col. col \<in> set (?cc @ ?lc @ ?rc) \<Longrightarrow>
      map_of (cellComps s') (getId b col) = map_of (cellComps s3) (getId b col)"
  proof -
    fix col assume "col \<in> set (?cc @ ?lc @ ?rc)"
    then have "getId b col \<notin> set ?cand" using cand_set by blast
    then have "getId b col \<notin> set eligible" using el_sub by blast
    then show "map_of (cellComps s') (getId b col) = map_of (cellComps s3) (getId b col)"
      unfolding s' by (simp add: destroyCells_slot)
  qed
  have goodc: "\<forall>col \<in> set ?cc. (\<exists>cell. map_of (cellComps s') (getId b col) = Some (Some cell)
           \<and> cellColumn cell = col \<and> parentRow cell = getGui center)
        \<and> getContainerForCell s' (getPinned b col) = Some (getGui center)"
    using good1 keep12 target_kept wc [OF rows'(1)] by simp
  have goodl: "\<forall>col \<in> set ?lc. (\<exists>cell. map_of (cellComps s') (getId b col) = Some (Some cell)
           \<and> cellColumn cell = col \<and> parentRow cell = getGui left)
        \<and> getContainerForCell s' (getPinned b col) = Some (getGui left)"
    using good2l keep23 target_kept wl [OF rows'(2)] by simp
  have goodr: "\<forall>col \<in> set ?rc. (\<exists>cell. map_of (cellComps s') (getId b col) = Some (Some cell)
           \<and> cellColumn cell = col \<and> parentRow cell = getGui right)
        \<and> getContainerForCell s' (getPinned b col) = Some (getGui right)"
    using good3r target_kept wr [OF rows'(3)] by simp
  have e0: "s'\<lparr>columnRefreshPending := False\<rparr> = s'"
    using crp' by (cases s') simp
  have e4: "s'\<lparr>elementOrderChanged := False\<rparr> = s'"
    using eoc' by (cases s') simp
  have i1: "insertCellsIntoContainer b (getGui center)
       (if printLayout s' then getAllDisplayedColumns b else getViewportCenterColumnsForRow b)
       (s'\<lparr>columnRefreshPending := False\<rparr>) = Some s'"
    unfolding e0 pl' using insertCellsIntoContainer_all_good [OF goodc] eoc' by simp
  have i2: "insertIfPresent b (leftRowComp s')
       (if printLayout s' then [] else getDisplayedLeftColumnsForRow b) s' = Some s'"
    unfolding pl' using insertCellsIntoContainer_all_good [OF goodl] eoc' rows'(2)
    by (simp add: insertIfPresent_def)
  have i3: "insertIfPresent b (rightRowComp s')
       (if printLayout s' then [] else getDisplayedRightColumnsForRow b) s' = Some s'"
    unfolding pl' using insertCellsIntoContainer_all_good [OF goodr] eoc' rows'(3)
    by (simp add: insertIfPresent_def)
  have keys': "Object_keys (cellComps s') = Object_keys (cellComps ?s4)"
    unfolding s' by (rule Object_keys_cong) (simp add: destroyCells_keys)
  have same: "\<forall>k \<in> set ?cand. isCellEligibleToBeRemoved b s' k = isCellEligibleToBeRemoved b ?s4 k"
  proof
    fix k assume k: "k \<in> set ?cand"
    show "isCellEligibleToBeRemoved b s' k = isCellEligibleToBeRemoved b ?s4 k"
    proof (cases "k \<in> set eligible")
      case True
      then have "isCellEligibleToBeRemoved b ?s4 k = Some True"
        using filterOption_set [OF el, of k] by simp
      moreover have "\<forall>c. map_of (cellComps s') k \<noteq> Some (Some c)"
        unfolding s' using True by (simp add: destroyCells_slot split: option.splits)
      ultimately show ?thesis by (simp add: isCellEligibleToBeRemoved_cleared)
    next
      case False
      then have "map_of (cellComps s') k = map_of (cellComps ?s4) k"
        unfolding s' by (simp add: destroyCells_slot)
      then show ?thesis
        using rows' rows3 by (intro isCellEligibleToBeRemoved_cong) simp_all
    qed
  qed
  have el': "filterOption (isCellEligibleToBeRemoved b (s'\<lparr>elementOrderChanged := False\<rparr>))
       (fold (\<lambda>col ids. removeFromArray ids (getId b col))
          ((if printLayout s' then getAllDisplayedColumns b else getViewportCenterColumnsForRow b)
           @ (if printLayout s' then [] else getDisplayedLeftColumnsForRow b)
           @ (if printLayout s' then [] else getDisplayedRightColumnsForRow b))
          (Object_keys (cellComps (s'\<lparr>elementOrderChanged := False\<rparr>)))) = Some eligible"
    unfolding e4 pl' keys' using filterOption_cong [OF same] el by simp
  have noop: "destroyCells eligible (s'\<lparr>elementOrderChanged := False\<rparr>) = s'"
    unfolding e4
  proof (rule destroyCells_noop, intro ballI allI)
    fix k c assume "k \<in> set eligible"
    then show "map_of (cellComps s') k \<noteq> Some (Some c)"
      unfolding s' by (simp add: destroyCells_slot split: option.splits)
  qed
  from refreshCellsInAnimationFrame_SomeI [OF act' rows'(1) i1 i2 i3 el']
  show ?thesis unfolding noop .
qed

text \<open>
  Claim C4. A second reconcile with the same target columns, right after the first,
  should create, destroy and move nothing. In print layout all displayed columns are
  targets of the centre container, but \<open>getContainerForCell\<close> still sends a pinned
  column to its pinned container: the cell of the pinned column 1, made in the centre
  container by the first pass, is found in the wrong container by the second pass,
  which destroys it and creates it again.
\<close>

theorem print_layout_pinned_cell_rebuilt:
  "printLayout row4 \<and> active row4
   \<and> getAllDisplayedColumns beans2 = [1, 2, 3] \<and> getPinned beans2 1 = Some PINNED_LEFT
   \<and> map_option trace (refreshCellsInAnimationFrame beans2 row4)
       = Some [NewCellComp 100 1 10 False, NewCellComp 101 2 10 False, NewCellComp 102 3 10 False]
   \<and> map_option trace
        (Option.bind (refreshCellsInAnimationFrame beans2 row4) (refreshCellsInAnimationFrame beans2))
       = Some [NewCellComp 100 1 10 False, NewCellComp 101 2 10 False, NewCellComp 102 3 10 False,
               CellDetach 100, CellDestroy 100, NewCellComp 103 1 10 False]"
  by (simp add: beans2_def beans0_def row4_def row0_def rowNode0_def run_defs)

lemma forEachOption_append:
  "forEachOption f (xs @ ys) s = Option.bind (forEachOption f xs s) (forEachOption f ys)"
  by (induction xs arbitrary: s) (simp_all split: option.splits)

text \<open>
  The first pass over one container, for target columns with pairwise different ids
  and a target column whose id has a slot holding a cell. When the cell is bound to
  the very same column object and \<open>isCellInWrongContainer\<close> is false for it, the slot
  still holds that cell after the pass. When the cell is bound to another column
  object, or \<open>isCellInWrongContainer\<close> is true for it, the pass detaches and destroys
  the old cell and right after creates a fresh cell for the target column in the row
  element being filled, which the slot holds after the pass.
\<close>

lemma insertCellsIntoContainer_keep_or_replace:
  assumes ins: "insertCellsIntoContainer b eRow cols s = Some s'"
    and d: "distinct (map (getId b) cols)"
    and col: "col \<in> set cols"
    and slot: "map_of (cellComps s) (getId b col) = Some (Some cell)"
  shows "(cellColumn cell = col \<and> isCellInWrongContainer b s cell = Some False
           \<longrightarrow> map_of (cellComps s') (getId b col) = Some (Some cell))
     \<and> (cellColumn cell \<noteq> col \<or> isCellInWrongContainer b s cell = Some True
           \<longrightarrow> (\<exists>cell1 ed before after.
                 map_of (cellComps s') (getId b col) = Some (Some cell1)
                 \<and> cellColumn cell1 = col \<and> parentRow cell1 = eRow
                 \<and> trace s' = trace s @ before
                      @ [CellDetach (eGui cell), CellDestroy (eGui cell),
                         NewCellComp (eGui cell1) col eRow ed]
                      @ after))"
proof -
  from ins obtain s0 where s0: "forEachOption (insertCell b eRow) cols s = Some s0"
    and s1: "s' = s0 \<or> (\<exists>order. s' = s0\<lparr>trace := trace s0 @ [SetDomChildOrder eRow order]\<rparr>)"
    by (auto simp: insertCellsIntoContainer_def Let_def split: bind_splits if_splits)
  from col obtain pre post where cols: "cols = pre @ col # post"
    by (auto dest: split_list)
  have npre: "getId b col \<notin> getId b ` set pre" and npost: "getId b col \<notin> getId b ` set post"
    using d unfolding cols by auto
  from s0 obtain sa sb where sa: "forEachOption (insertCell b eRow) pre s = Some sa"
    and sb: "insertCell b eRow col sa = Some sb"
    and sc: "forEachOption (insertCell b eRow) post sb = Some s0"
    unfolding cols forEachOption_append
    by (auto simp: bind_eq_Some_conv split: option.splits)
  note fa = forEachOption_insertCell_frame [OF sa, of "getId b col"]
  note fc = forEachOption_insertCell_frame [OF sc, of "getId b col"]
  have slota: "map_of (cellComps sa) (getId b col) = Some (Some cell)"
    using fa npre slot by simp
  have wronga: "isCellInWrongContainer b sa cell = isCellInWrongContainer b s cell"
    using fa by (intro isCellInWrongContainer_cong) simp_all
  obtain ea where ea: "trace sa = trace s @ ea" using fa by blast
  obtain ec where ec: "trace s0 = trace sb @ ec" using fc by blast
  obtain ed where ed: "trace s' = trace s0 @ ed" using s1 by auto
  have slot': "map_of (cellComps s') (getId b col) = map_of (cellComps sb) (getId b col)"
    using fc npost s1 by auto
  note step = insertCell_keep_or_replace [of sa b col cell eRow sb "[]"]
  show ?thesis
  proof (intro conjI impI)
    assume "cellColumn cell = col \<and> isCellInWrongContainer b s cell = Some False"
    then have "insertCell b eRow col sa = Some sa"
      using step [THEN conjunct1] slota wronga by simp
    then have "sb = sa" using sb by simp
    then show "map_of (cellComps s') (getId b col) = Some (Some cell)"
      using slot' slota by simp
  next
    assume "cellColumn cell \<noteq> col \<or> isCellInWrongContainer b s cell = Some True"
    then obtain s1' cell1 where r: "insertCell b eRow col sa = Some s1'"
      "trace s1' = trace sa @ [CellDetach (eGui cell), CellDestroy (eGui cell),
                              NewCellComp (nextElement sa) col eRow (editingRow sa)]"
      "map_of (cellComps s1') (getId b col) = Some (Some cell1)"
      "eGui cell1 = nextElement sa" "cellColumn cell1 = col" "parentRow cell1 = eRow"
      using step [THEN conjunct2, THEN conjunct2, THEN conjunct1] slota wronga by auto
    have sbe: "s1' = sb" using r(1) sb by simp
    have t: "trace s' = trace s @ ea
                      @ [CellDetach (eGui cell), CellDestroy (eGui cell),
                         NewCellComp (eGui cell1) col eRow (editingRow sa)]
                      @ (ec @ ed)"
      using ed ec r(2) r(4) ea sbe by simp
    show "\<exists>cell1 ed before after.
                 map_of (cellComps s') (getId b col) = Some (Some cell1)
                 \<and> cellColumn cell1 = col \<and> parentRow cell1 = eRow
                 \<and> trace s' = trace s @ before
                      @ [CellDetach (eGui cell), CellDestroy (eGui cell),
                         NewCellComp (eGui cell1) col eRow ed]
                      @ after"
      using t r(3) r(5) r(6) slot' sbe
      by (intro exI [of _ cell1] exI [of _ "editingRow sa"] exI [of _ ea] exI [of _ "ec @ ed"])
        simp
  qed
qed

text \<open>
  Claim C5. In the first pass an existing slot should be kept when its cell is bound to
  the very same column object as the target column and sits in the container of the
  segment, and be destroyed and rebuilt only otherwise. The test for the container,
  \<open>isCellInWrongContainer\<close>, asks \<open>getContainerForCell\<close>, which has no case for print
  layout. On the print-layout row as constructed, the cell of the pinned column 1 is
  bound to the target column object and sits in the centre element, the very element
  the pass fills, and still the test reports the wrong container: the pass detaches
  and destroys the cell and creates a new one in the same element.
\<close>

theorem print_layout_cell_in_filled_container_replaced:
  "printLayout row5
   \<and> map_option getGui (centerRowComp row5) = Some 10
   \<and> trace row5 = [NewCellComp 100 1 10 False, NewCellComp 101 2 10 False,
                    NewCellComp 102 3 10 False]
   \<and> map_of (cellComps row5) (getId beans2 1) = Some (Some (cell0 100 1 10 False))
   \<and> cellColumn (cell0 100 1 10 False) = 1
   \<and> parentRow (cell0 100 1 10 False) = 10
   \<and> isCellInWrongContainer beans2 row5 (cell0 100 1 10 False) = Some True
   \<and> map_option trace (insertCellsIntoContainer beans2 10 (getAllDisplayedColumns beans2) row5)
       = Some (trace row5 @ [CellDetach 100, CellDestroy 100, NewCellComp 103 1 10 False])
   \<and> map_option (\<lambda>s'. map_of (cellComps s') (getId beans2 1))
        (insertCellsIntoContainer beans2 10 (getAllDisplayedColumns beans2) row5)
       = Some (Some (Some (cell0 103 1 10 False)))"
  by (simp add: row5_def createCells_def beans2_def beans0_def row4_def row0_def rowNode0_def
      cell0_def run_defs)

end
